theory Spec2Isabelle
  imports Main "HOL-Library.AList"
begin

section \<open>Python values and exceptions\<close>

text \<open>
  Embedding of \<^verbatim>\<open>storage3/_sync/file_api.py\<close> (class \<^verbatim>\<open>SyncBucketActionsMixin\<close>).
  Python \<^verbatim>\<open>str\<close> and \<^verbatim>\<open>bytes\<close> are both modelled as \<open>string\<close> (a list of
  8-bit characters; non-ASCII text is its UTF-8 encoding).
\<close>

type_synonym bytes = string

text \<open>
  Decoded JSON, as \<^verbatim>\<open>response.json()\<close> returns it. An object is an association list in
  insertion order, as a Python \<^verbatim>\<open>dict\<close> is; numbers are restricted to integers.
\<close>

datatype json =
    JNull
  | JBool bool
  | JNum int
  | JStr string
  | JArr "json list"
  | JObj "(string \<times> json) list"

text \<open>
  The exceptions that can leave the methods. \<open>StorageException\<close> carries its single
  constructor argument (a dict or a message string). \<open>TransportError\<close> stands for whatever
  \<^verbatim>\<open>self._client.request\<close> raises itself.
\<close>

datatype error =
    StorageException json
  | JSONDecodeError
  | KeyError string
  | TypeError
  | AttributeError
  | ValueError string
  | OSError string
  | TransportError string

text \<open>Truth value of a Python object, for the JSON-like values.\<close>

fun truthy :: "json \<Rightarrow> bool" where
  "truthy JNull = False"
| "truthy (JBool b) = b"
| "truthy (JNum n) = (n \<noteq> 0)"
| "truthy (JStr s) = (s \<noteq> [])"
| "truthy (JArr xs) = (xs \<noteq> [])"
| "truthy (JObj kvs) = (kvs \<noteq> [])"

text \<open>\<^verbatim>\<open>str(n)\<close> for an integer: decimal digits, with a minus sign when negative.\<close>

fun digits_of :: "nat \<Rightarrow> string" where
  "digits_of n = (if n < 10 then [char_of (48 + n)]
                  else digits_of (n div 10) @ [char_of (48 + n mod 10)])"

declare digits_of.simps [simp del]

definition str_int :: "int \<Rightarrow> string" where
  "str_int i = (if i < 0 then CHR ''-'' # digits_of (nat (- i)) else digits_of (nat i))"

section \<open>String methods used by the source\<close>

text \<open>\<^verbatim>\<open>s.lstrip("/")\<close>: every leading slash is removed.\<close>

definition lstrip_slash :: "string \<Rightarrow> string" where
  "lstrip_slash s = dropWhile (\<lambda>c. c = CHR ''/'') s"

text \<open>\<^verbatim>\<open>s.rsplit("/", maxsplit=1)[-1]\<close>: what follows the last slash, or all of \<open>s\<close>.\<close>

definition rsplit_last :: "string \<Rightarrow> string" where
  "rsplit_last s = rev (takeWhile (\<lambda>c. c \<noteq> CHR ''/'') (rev s))"

text \<open>
  \<^verbatim>\<open>s.split(c, 1)\<close> when \<open>c\<close> occurs in \<open>s\<close>: the text before the first occurrence and the
  text after it; \<open>None\<close> when \<open>c\<close> does not occur.
\<close>

definition split_first :: "char \<Rightarrow> string \<Rightarrow> (string \<times> string) option" where
  "split_first c s =
     (case dropWhile (\<lambda>x. x \<noteq> c) s of
        [] \<Rightarrow> None
      | _ # rest \<Rightarrow> Some (takeWhile (\<lambda>x. x \<noteq> c) s, rest))"

text \<open>\<^verbatim>\<open>s.split(c)\<close>: all the fields between occurrences of \<open>c\<close>.\<close>

fun split_all :: "char \<Rightarrow> string \<Rightarrow> string list" where
  "split_all c [] = [[]]"
| "split_all c (x # xs) =
     (if x = c then [] # split_all c xs
      else (case split_all c xs of
              [] \<Rightarrow> [[x]]
            | f # fs \<Rightarrow> (x # f) # fs))"

section \<open>The functions of \<^verbatim>\<open>urllib.parse\<close> that the source calls\<close>

text \<open>
  The standard library is not part of the repository; these definitions follow CPython's
  \<^verbatim>\<open>Lib/urllib/parse.py\<close> (as of 3.11) for \<^verbatim>\<open>str\<close> arguments. Left out: the NFKC
  check of a non-ASCII host and the validation of the text between the brackets of an
  IPv6 host; neither is reached when the host is ASCII without brackets.
\<close>

definition is_ascii_alpha :: "char \<Rightarrow> bool" where
  "is_ascii_alpha c =
     (let n = (of_char c :: nat) in (65 \<le> n \<and> n \<le> 90) \<or> (97 \<le> n \<and> n \<le> 122))"

definition is_ascii_digit :: "char \<Rightarrow> bool" where
  "is_ascii_digit c = (let n = (of_char c :: nat) in 48 \<le> n \<and> n \<le> 57)"

definition ascii_lower :: "char \<Rightarrow> char" where
  "ascii_lower c =
     (let n = (of_char c :: nat) in if 65 \<le> n \<and> n \<le> 90 then char_of (n + 32) else c)"

text \<open>\<^verbatim>\<open>scheme_chars\<close>: the ASCII letters, the digits and \<^verbatim>\<open>+-.\<close>\<close>

definition is_scheme_char :: "char \<Rightarrow> bool" where
  "is_scheme_char c =
     (is_ascii_alpha c \<or> is_ascii_digit c \<or> c = CHR ''+'' \<or> c = CHR ''-'' \<or> c = CHR ''.'')"

definition uses_params :: "string list" where
  "uses_params = ['''', ''ftp'', ''hdl'', ''prospero'', ''http'', ''imap'', ''https'',
     ''shttp'', ''rtsp'', ''rtspu'', ''sip'', ''sips'', ''mms'', ''sftp'', ''tel'']"

definition uses_netloc :: "string list" where
  "uses_netloc = ['''', ''ftp'', ''http'', ''gopher'', ''nntp'', ''telnet'', ''imap'',
     ''wais'', ''file'', ''mms'', ''https'', ''shttp'', ''snews'', ''prospero'', ''rtsp'',
     ''rtspu'', ''rsync'', ''svn'', ''svn+ssh'', ''sftp'', ''nfs'', ''git'', ''git+ssh'',
     ''ws'', ''wss'']"

text \<open>
  \<^verbatim>\<open>_splitnetloc(url, 2)\<close>: the host part runs from index 2 to the first of
  \<^verbatim>\<open>/ ? #\<close>.
\<close>

definition is_netloc_delim :: "char \<Rightarrow> bool" where
  "is_netloc_delim c = (c = CHR ''/'' \<or> c = CHR ''?'' \<or> c = CHR ''#'')"

definition splitnetloc :: "string \<Rightarrow> string \<times> string" where
  "splitnetloc url =
     (takeWhile (\<lambda>c. \<not> is_netloc_delim c) (drop 2 url),
      dropWhile (\<lambda>c. \<not> is_netloc_delim c) (drop 2 url))"

text \<open>
  The first lines of \<^verbatim>\<open>urlsplit\<close>: \<^verbatim>\<open>url.lstrip(_WHATWG_C0_CONTROL_OR_SPACE)\<close> removes
  the leading characters up to U+0020, then every tab, line feed and carriage return
  (\<^verbatim>\<open>_UNSAFE_URL_BYTES_TO_REMOVE\<close>) is removed wherever it stands.
\<close>

definition is_c0_or_space :: "char \<Rightarrow> bool" where
  "is_c0_or_space c = ((of_char c :: nat) \<le> 32)"

definition is_unsafe_url_byte :: "char \<Rightarrow> bool" where
  "is_unsafe_url_byte c = (let n = (of_char c :: nat) in n = 9 \<or> n = 10 \<or> n = 13)"

definition clean_url :: "string \<Rightarrow> string" where
  "clean_url url = filter (\<lambda>c. \<not> is_unsafe_url_byte c) (dropWhile is_c0_or_space url)"

text \<open>\<^verbatim>\<open>urlsplit(url)\<close>: (scheme, netloc, path, query, fragment), or \<^verbatim>\<open>ValueError\<close>.\<close>

definition urlsplit :: "string \<Rightarrow> error + (string \<times> string \<times> string \<times> string \<times> string)" where
  "urlsplit url =
     (let url0 = clean_url url;
          (scheme, url1) =
            (case split_first (CHR '':'') url0 of
               None \<Rightarrow> ('''', url0)
             | Some (pre, rest) \<Rightarrow>
                 if pre \<noteq> [] \<and> is_ascii_alpha (hd pre) \<and> list_all is_scheme_char pre
                 then (map ascii_lower pre, rest)
                 else ('''', url0));
          (netloc, url2) =
            (if take 2 url1 = ''//'' then splitnetloc url1 else ('''', url1))
      in if (CHR ''['' \<in> set netloc \<and> CHR '']'' \<notin> set netloc)
            \<or> (CHR '']'' \<in> set netloc \<and> CHR ''['' \<notin> set netloc)
         then Inl (ValueError ''Invalid IPv6 URL'')
         else
           (let (url3, fragment) =
                  (case split_first (CHR ''#'') url2 of
                     None \<Rightarrow> (url2, '''')
                   | Some (a, b) \<Rightarrow> (a, b));
                (url4, query) =
                  (case split_first (CHR ''?'') url3 of
                     None \<Rightarrow> (url3, '''')
                   | Some (a, b) \<Rightarrow> (a, b))
            in Inr (scheme, netloc, url4, query, fragment)))"

text \<open>
  \<^verbatim>\<open>_splitparams(url)\<close>: the parameters follow the first \<^verbatim>\<open>;\<close> of the last path
  segment.
\<close>

definition splitparams :: "string \<Rightarrow> string \<times> string" where
  "splitparams url =
     (if CHR ''/'' \<in> set url
      then (let seg = rsplit_last url; pre = take (length url - length seg) url
            in case split_first (CHR '';'') seg of
                 None \<Rightarrow> (url, '''')
               | Some (a, b) \<Rightarrow> (pre @ a, b))
      else (case split_first (CHR '';'') url of
              None \<Rightarrow> (butlast url, url)
            | Some (a, b) \<Rightarrow> (a, b)))"

record parse_result =
  pr_scheme :: string
  pr_netloc :: string
  pr_path :: string
  pr_params :: string
  pr_query :: string
  pr_fragment :: string

definition urlparse :: "string \<Rightarrow> error + parse_result" where
  "urlparse url0 =
     (case urlsplit url0 of
        Inl e \<Rightarrow> Inl e
      | Inr (scheme, netloc, url, query, fragment) \<Rightarrow>
          (let (url', params) =
                 (if scheme \<in> set uses_params \<and> CHR '';'' \<in> set url
                  then splitparams url else (url, ''''))
           in Inr \<lparr>pr_scheme = scheme, pr_netloc = netloc, pr_path = url',
                    pr_params = params, pr_query = query, pr_fragment = fragment\<rparr>))"

text \<open>\<^verbatim>\<open>ParseResult.geturl()\<close>, that is \<^verbatim>\<open>urlunparse\<close> on top of \<^verbatim>\<open>urlunsplit\<close>.\<close>

definition geturl :: "parse_result \<Rightarrow> string" where
  "geturl r =
     (let url = (if pr_params r \<noteq> [] then pr_path r @ '';'' @ pr_params r else pr_path r);
          url = (if pr_netloc r \<noteq> []
                    \<or> (pr_scheme r \<noteq> [] \<and> pr_scheme r \<in> set uses_netloc \<and> take 2 url \<noteq> ''//'')
                 then ''//'' @ pr_netloc r
                      @ (if url \<noteq> [] \<and> take 1 url \<noteq> ''/'' then ''/'' @ url else url)
                 else url);
          url = (if pr_scheme r \<noteq> [] then pr_scheme r @ '':'' @ url else url);
          url = (if pr_query r \<noteq> [] then url @ ''?'' @ pr_query r else url)
      in if pr_fragment r \<noteq> [] then url @ ''#'' @ pr_fragment r else url)"

subsection \<open>Query strings\<close>

definition is_hex :: "char \<Rightarrow> bool" where
  "is_hex c =
     (let n = (of_char c :: nat)
      in (48 \<le> n \<and> n \<le> 57) \<or> (65 \<le> n \<and> n \<le> 70) \<or> (97 \<le> n \<and> n \<le> 102))"

definition hexval :: "char \<Rightarrow> nat" where
  "hexval c =
     (let n = (of_char c :: nat)
      in if n \<le> 57 then n - 48 else if n \<le> 70 then n - 55 else n - 87)"

text \<open>
  \<^verbatim>\<open>unquote_to_bytes(s)\<close>: a percent sign followed by two hexadecimal digits becomes the
  byte they name; any other percent sign stays.
\<close>

fun unquote_to_bytes :: "string \<Rightarrow> bytes" where
  "unquote_to_bytes [] = []"
| "unquote_to_bytes (c # cs) =
     (if c = CHR ''%''
      then (case cs of
              h1 # h2 # rest \<Rightarrow>
                if is_hex h1 \<and> is_hex h2
                then char_of (16 * hexval h1 + hexval h2) # unquote_to_bytes rest
                else c # unquote_to_bytes cs
            | _ \<Rightarrow> c # unquote_to_bytes cs)
      else c # unquote_to_bytes cs)"

text \<open>
  \<^verbatim>\<open>bytes.decode('utf-8', 'replace')\<close>, with the decoded text written back as UTF-8 (the
  representation of \<^verbatim>\<open>str\<close> here). One step looks at the lead byte \<open>b\<close> and the bytes
  after it and gives the bytes to emit and how many bytes after \<open>b\<close> were consumed. As
  in CPython's decoder, an invalid start byte costs one byte, an invalid continuation
  byte ends the error just before it, a sequence cut short by the end of the data is one
  error, and each error becomes one U+FFFD (\<^verbatim>\<open>EF BF BD\<close>). Overlong forms
  (\<^verbatim>\<open>C0\<close>, \<^verbatim>\<open>C1\<close>, \<^verbatim>\<open>E0 80..9F\<close>, \<^verbatim>\<open>F0 80..8F\<close>), surrogates (\<^verbatim>\<open>ED A0..BF\<close>)
  and code points above U+10FFFF (\<^verbatim>\<open>F4 90..\<close>, \<^verbatim>\<open>F5..FF\<close>) are invalid.
\<close>

definition replacement_char :: string where
  "replacement_char = [CHR 0xEF, CHR 0xBF, CHR 0xBD]"

definition is_continuation :: "char \<Rightarrow> bool" where
  "is_continuation c = (let n = (of_char c :: nat) in 128 \<le> n \<and> n \<le> 191)"

definition second_of_three_ok :: "char \<Rightarrow> char \<Rightarrow> bool" where
  "second_of_three_ok b c2 =
     (is_continuation c2
      \<and> \<not> ((of_char b :: nat) = 224 \<and> (of_char c2 :: nat) < 160)
      \<and> \<not> ((of_char b :: nat) = 237 \<and> (of_char c2 :: nat) \<ge> 160))"

definition second_of_four_ok :: "char \<Rightarrow> char \<Rightarrow> bool" where
  "second_of_four_ok b c2 =
     (is_continuation c2
      \<and> \<not> ((of_char b :: nat) = 240 \<and> (of_char c2 :: nat) < 144)
      \<and> \<not> ((of_char b :: nat) = 244 \<and> (of_char c2 :: nat) \<ge> 144))"

definition utf8_step :: "char \<Rightarrow> bytes \<Rightarrow> string \<times> nat" where
  "utf8_step b rest =
     (let n = (of_char b :: nat)
      in if n < 128 then ([b], 0)
         else if n < 194 then (replacement_char, 0)
         else if n < 224 then
           (case rest of
              [] \<Rightarrow> (replacement_char, 0)
            | c2 # r2 \<Rightarrow>
                if is_continuation c2 then ([b, c2], 1) else (replacement_char, 0))
         else if n < 240 then
           (case rest of
              [] \<Rightarrow> (replacement_char, 0)
            | c2 # r2 \<Rightarrow>
                if \<not> second_of_three_ok b c2 then (replacement_char, 0)
                else (case r2 of
                        [] \<Rightarrow> (replacement_char, 1)
                      | c3 # r3 \<Rightarrow>
                          if is_continuation c3 then ([b, c2, c3], 2)
                          else (replacement_char, 1)))
         else if n < 245 then
           (case rest of
              [] \<Rightarrow> (replacement_char, 0)
            | c2 # r2 \<Rightarrow>
                if \<not> second_of_four_ok b c2 then (replacement_char, 0)
                else (case r2 of
                        [] \<Rightarrow> (replacement_char, 1)
                      | c3 # r3 \<Rightarrow>
                          if \<not> is_continuation c3 then (replacement_char, 1)
                          else (case r3 of
                                  [] \<Rightarrow> (replacement_char, 2)
                                | c4 # r4 \<Rightarrow>
                                    if is_continuation c4 then ([b, c2, c3, c4], 3)
                                    else (replacement_char, 2))))
         else (replacement_char, 0))"

fun utf8_replace :: "bytes \<Rightarrow> string" where
  "utf8_replace [] = []"
| "utf8_replace (b # rest) =
     fst (utf8_step b rest) @ utf8_replace (drop (snd (utf8_step b rest)) rest)"

text \<open>
  \<^verbatim>\<open>unquote(s)\<close> with \<^verbatim>\<open>encoding='utf-8'\<close>, \<^verbatim>\<open>errors='replace'\<close>: every maximal run of
  ASCII characters is turned into bytes by \<^verbatim>\<open>unquote_to_bytes\<close> and decoded; the
  non-ASCII characters between the runs stay as they are.
\<close>

definition is_ascii_char :: "char \<Rightarrow> bool" where
  "is_ascii_char c = ((of_char c :: nat) < 128)"

function unquote :: "string \<Rightarrow> string" where
  "unquote [] = []"
| "unquote (c # cs) =
     (if is_ascii_char c
      then utf8_replace (unquote_to_bytes (c # takeWhile is_ascii_char cs))
           @ unquote (dropWhile is_ascii_char cs)
      else c # unquote cs)"
  by pat_completeness auto
termination
  by (relation "measure length") (auto simp: less_Suc_eq_le length_dropWhile_le)

definition plus_to_space :: "string \<Rightarrow> string" where
  "plus_to_space s = map (\<lambda>c. if c = CHR ''+'' then CHR '' '' else c) s"

text \<open>
  One field of \<^verbatim>\<open>parse_qsl(qs)\<close> with its defaults (\<^verbatim>\<open>keep_blank_values=False\<close>,
  \<^verbatim>\<open>strict_parsing=False\<close>, separator \<^verbatim>\<open>&\<close>): an empty field, a field without \<^verbatim>\<open>=\<close>
  and a field with an empty value all contribute nothing.
\<close>

definition parse_field :: "string \<Rightarrow> (string \<times> string) list" where
  "parse_field name_value =
     (if name_value = [] then []
      else (case split_first (CHR ''='') name_value of
              None \<Rightarrow> []
            | Some (n, v) \<Rightarrow>
                if v \<noteq> [] then [(unquote (plus_to_space n), unquote (plus_to_space v))]
                else []))"

definition parse_qsl :: "string \<Rightarrow> (string \<times> string) list" where
  "parse_qsl qs = concat (map parse_field (split_all (CHR ''&'') qs))"

text \<open>\<^verbatim>\<open>parse_qs(qs)\<close>: each name with the list of its values, in order.\<close>

definition add_value :: "(string \<rightharpoonup> string list) \<Rightarrow> string \<times> string \<Rightarrow> (string \<rightharpoonup> string list)" where
  "add_value m nv =
     (case m (fst nv) of
        None \<Rightarrow> m(fst nv \<mapsto> [snd nv])
      | Some vs \<Rightarrow> m(fst nv \<mapsto> vs @ [snd nv]))"

definition parse_qs :: "string \<Rightarrow> (string \<rightharpoonup> string list)" where
  "parse_qs qs = foldl add_value Map.empty (parse_qsl qs)"

subsection \<open>Encoding a query\<close>

definition hex_digit :: "nat \<Rightarrow> char" where
  "hex_digit n = (if n < 10 then char_of (48 + n) else char_of (55 + n))"

text \<open>
  \<^verbatim>\<open>quote_plus(s)\<close> with \<^verbatim>\<open>safe=''\<close>: letters, digits and \<^verbatim>\<open>_.-~\<close> stay, a space
  becomes \<^verbatim>\<open>+\<close>, every other byte becomes \<^verbatim>\<open>%XX\<close>.
\<close>

definition is_always_safe :: "char \<Rightarrow> bool" where
  "is_always_safe c =
     (is_ascii_alpha c \<or> is_ascii_digit c
      \<or> c = CHR ''_'' \<or> c = CHR ''.'' \<or> c = CHR ''-'' \<or> c = CHR ''~'')"

definition quote_char :: "char \<Rightarrow> string" where
  "quote_char c =
     (if is_always_safe c then [c]
      else if c = CHR '' '' then ''+''
      else [CHR ''%'', hex_digit ((of_char c :: nat) div 16), hex_digit ((of_char c :: nat) mod 16)])"

definition quote_plus :: "string \<Rightarrow> string" where
  "quote_plus s = concat (map quote_char s)"

text \<open>
  The values of an options dict. \<open>PObj t s\<close> is any other object (a nested dict, a
  list), given by the two things the source observes of it: its truth value \<open>t\<close> and
  the text \<open>s\<close> of \<^verbatim>\<open>str()\<close> on it.
\<close>

datatype pyval = PNone | PBool bool | PInt int | PStr string | PObj bool string

fun py_truthy :: "pyval \<Rightarrow> bool" where
  "py_truthy PNone = False"
| "py_truthy (PBool b) = b"
| "py_truthy (PInt n) = (n \<noteq> 0)"
| "py_truthy (PStr s) = (s \<noteq> [])"
| "py_truthy (PObj t s) = t"

fun py_str :: "pyval \<Rightarrow> string" where
  "py_str PNone = ''None''"
| "py_str (PBool b) = (if b then ''True'' else ''False'')"
| "py_str (PInt n) = str_int n"
| "py_str (PStr s) = s"
| "py_str (PObj t s) = s"

text \<open>\<^verbatim>\<open>'&'.join(l)\<close>\<close>

fun join_amp :: "string list \<Rightarrow> string" where
  "join_amp [] = []"
| "join_amp [x] = x"
| "join_amp (x # y # ys) = x @ ''&'' @ join_amp (y # ys)"

text \<open>\<^verbatim>\<open>urlencode(query)\<close> on a dict with \<^verbatim>\<open>str\<close> keys, in insertion order.\<close>

definition urlencode :: "(string \<times> pyval) list \<Rightarrow> string" where
  "urlencode items =
     join_amp (map (\<lambda>kv. quote_plus (fst kv) @ ''='' @ quote_plus (py_str (snd kv))) items)"

section \<open>The client, the transport and the file system\<close>

text \<open>
  An open file object: the bytes it reads and whether \<^verbatim>\<open>close()\<close> has been called on it.
  The world holds the files on disk, the table of file objects opened so far (a file
  object is its index in the table) and the log of the requests that went out.
\<close>

record handle =
  h_data :: bytes
  h_closed :: bool

text \<open>
  The \<^verbatim>\<open>file\<close> argument of the upload methods: \<^verbatim>\<open>bytes\<close>; an already open
  \<^verbatim>\<open>BufferedReader\<close> or \<^verbatim>\<open>FileIO\<close>; a \<^verbatim>\<open>str\<close> or \<^verbatim>\<open>Path\<close> naming a file.
\<close>

datatype payload = FBytes bytes | FStream nat | FPath string

text \<open>The second component of the multipart tuple: the bytes, or a file object.\<close>

datatype file_source = SrcBytes bytes | SrcHandle nat

type_synonym multipart = "(string \<times> (string \<times> file_source \<times> string)) list"

record response =
  status_code :: int
  json_body :: "json option"
  content :: bytes

record wire_part =
  part_filename :: string
  part_content :: bytes
  part_content_type :: string

record wire_request =
  w_method :: string
  w_url :: string
  w_headers :: "string \<rightharpoonup> string"
  w_json :: "json option"
  w_files :: "(string \<times> wire_part) list"

record world =
  fs :: "string \<rightharpoonup> bytes"
  handles :: "handle list"
  sent :: "wire_request list"

text \<open>
  Modelled from the spec: the parent client (\<^verbatim>\<open>supabase_client.SupaSyncClient\<close>, not under
  src/) is "a base URL (string), a default header mapping, and a request(method, url,
  headers, jsonBody, multipartBody) -> response capability that performs the actual
  network I/O". The network is the parameter \<open>cl_transport\<close>, which answers a request
  as it goes on the wire or fails with an exception of its own.
\<close>

record client =
  cl_base_url :: string
  cl_headers :: "string \<rightharpoonup> string"
  cl_transport :: "wire_request \<Rightarrow> error + response"

text \<open>\<^verbatim>\<open>open(file, "rb")\<close>: a new file object, or \<^verbatim>\<open>OSError\<close> when there is no such file.\<close>

definition open_rb :: "world \<Rightarrow> string \<Rightarrow> (error + nat) \<times> world" where
  "open_rb w p =
     (case fs w p of
        None \<Rightarrow> (Inl (OSError p), w)
      | Some d \<Rightarrow>
          (Inr (length (handles w)),
           w\<lparr>handles := handles w @ [\<lparr>h_data = d, h_closed = False\<rparr>]\<rparr>))"

text \<open>
  Modelled from the spec: the multipart encoding done by the client's \<^verbatim>\<open>request\<close>. The
  bytes of a part are the bytes given, or all the bytes of the file object, which is read
  and not closed; reading a closed file object is a \<^verbatim>\<open>ValueError\<close>.
\<close>

definition read_source :: "world \<Rightarrow> file_source \<Rightarrow> error + bytes" where
  "read_source w src =
     (case src of
        SrcBytes b \<Rightarrow> Inr b
      | SrcHandle h \<Rightarrow>
          if h < length (handles w) \<and> \<not> h_closed (handles w ! h)
          then Inr (h_data (handles w ! h))
          else Inl (ValueError ''I/O operation on closed file''))"

fun encode_files :: "world \<Rightarrow> multipart \<Rightarrow> error + (string \<times> wire_part) list" where
  "encode_files w [] = Inr []"
| "encode_files w ((name, (filename, src, ctype)) # rest) =
     (case read_source w src of
        Inl e \<Rightarrow> Inl e
      | Inr b \<Rightarrow>
          (case encode_files w rest of
             Inl e \<Rightarrow> Inl e
           | Inr parts \<Rightarrow>
               Inr ((name, \<lparr>part_filename = filename, part_content = b,
                             part_content_type = ctype\<rparr>) # parts)))"

text \<open>\<^verbatim>\<open>self._client.request(method, url, headers=..., json=..., files=...)\<close>\<close>

definition client_request ::
  "client \<Rightarrow> world \<Rightarrow> string \<Rightarrow> string \<Rightarrow> (string \<rightharpoonup> string) \<Rightarrow> json option
     \<Rightarrow> multipart option \<Rightarrow> (error + response) \<times> world" where
  "client_request cl w method url hdrs body files =
     (case encode_files w (case files of None \<Rightarrow> [] | Some f \<Rightarrow> f) of
        Inl e \<Rightarrow> (Inl e, w)
      | Inr parts \<Rightarrow>
          (let req = \<lparr>w_method = method, w_url = url, w_headers = hdrs,
                      w_json = body, w_files = parts\<rparr>
           in (cl_transport cl req, w\<lparr>sent := sent w @ [req]\<rparr>)))"

text \<open>
  \<^verbatim>\<open>response.raise_for_status()\<close> of httpx raises \<^verbatim>\<open>HTTPStatusError\<close> unless the status
  code is 2xx.
\<close>

definition is_success :: "int \<Rightarrow> bool" where
  "is_success sc = (200 \<le> sc \<and> sc \<le> 299)"

section \<open>The bucket handle\<close>

text \<open>
  \<^verbatim>\<open>_request\<close>. A transport exception propagates; a failing status raises
  \<^verbatim>\<open>StorageException({**response.json(), "statusCode": response.status_code})\<close>, where
  \<^verbatim>\<open>response.json()\<close> may raise and \<^verbatim>\<open>**\<close> needs a mapping.
\<close>

definition request ::
  "client \<Rightarrow> world \<Rightarrow> string \<Rightarrow> string \<Rightarrow> (string \<rightharpoonup> string) option \<Rightarrow> json option
     \<Rightarrow> multipart option \<Rightarrow> (error + response) \<times> world" where
  "request cl w method url hdrs body files =
     (case client_request cl w method url
             (case hdrs of None \<Rightarrow> Map.empty | Some h \<Rightarrow> h) body files of
        (Inl e, w') \<Rightarrow> (Inl e, w')
      | (Inr resp, w') \<Rightarrow>
          if is_success (status_code resp) then (Inr resp, w')
          else (case json_body resp of
                  None \<Rightarrow> (Inl JSONDecodeError, w')
                | Some (JObj kvs) \<Rightarrow>
                    (Inl (StorageException
                           (JObj (AList.update ''statusCode'' (JNum (status_code resp)) kvs))),
                     w')
                | Some _ \<Rightarrow> (Inl TypeError, w')))"

text \<open>
  \<^verbatim>\<open>data[key]\<close> on a decoded JSON value: only a dict can be indexed by a string, and the
  key must be there.
\<close>

definition getitem :: "json \<Rightarrow> string \<Rightarrow> error + json" where
  "getitem data k =
     (case data of
        JObj kvs \<Rightarrow> (case map_of kvs k of None \<Rightarrow> Inl (KeyError k) | Some v \<Rightarrow> Inr v)
      | _ \<Rightarrow> Inl TypeError)"

text \<open>
  \<^verbatim>\<open>_get_final_path\<close> (the leading underscore is dropped: an Isabelle name starts with a
  letter). \<open>bucket_id\<close> is \<^verbatim>\<open>self.id\<close>.
\<close>

definition get_final_path :: "string \<Rightarrow> string \<Rightarrow> string" where
  "get_final_path bucket_id path = bucket_id @ ''/'' @ path"

record signed_upload_url =
  su_signed_url :: string
  su_token :: string
  su_path :: string

text \<open>
  \<^verbatim>\<open>create_signed_upload_url\<close>. The base URL and \<^verbatim>\<open>data["url"]\<close> are concatenated as they
  are; \<^verbatim>\<open>str + x\<close> is a \<^verbatim>\<open>TypeError\<close> unless \<^verbatim>\<open>x\<close> is a \<^verbatim>\<open>str\<close>.
\<close>

definition create_signed_upload_url ::
  "client \<Rightarrow> string \<Rightarrow> world \<Rightarrow> string \<Rightarrow> (error + signed_upload_url) \<times> world" where
  "create_signed_upload_url cl bucket_id w path =
     (let fpath = get_final_path bucket_id path
      in case request cl w ''POST'' (''/object/upload/sign/'' @ fpath) None None None of
           (Inl e, w') \<Rightarrow> (Inl e, w')
         | (Inr resp, w') \<Rightarrow>
             (case json_body resp of
                None \<Rightarrow> (Inl JSONDecodeError, w')
              | Some data \<Rightarrow>
                  (case getitem data ''url'' of
                     Inl e \<Rightarrow> (Inl e, w')
                   | Inr (JStr u) \<Rightarrow>
                       (case urlparse (cl_base_url cl @ u) of
                          Inl e \<Rightarrow> (Inl e, w')
                        | Inr full_url \<Rightarrow>
                            (let query_params = parse_qs (pr_query full_url)
                             in case query_params ''token'' of
                                  None \<Rightarrow>
                                    (Inl (StorageException (JStr ''No token sent by the API'')), w')
                                | Some vs \<Rightarrow>
                                    if vs = []
                                    then (Inl (StorageException
                                                (JStr ''No token sent by the API'')), w')
                                    else (Inr \<lparr>su_signed_url = geturl full_url,
                                               su_token = hd vs,
                                               su_path = path\<rparr>, w')))
                   | Inr _ \<Rightarrow> (Inl TypeError, w'))))"

text \<open>
  The first lines shared by \<^verbatim>\<open>upload\<close> and \<^verbatim>\<open>upload_to_signed_url\<close>: the caller's
  \<^verbatim>\<open>file_options\<close> dict is written to when its \<^verbatim>\<open>cache-control\<close> entry is truthy.
\<close>

definition rewrite_cache_control :: "(string \<rightharpoonup> string) \<Rightarrow> (string \<rightharpoonup> string)" where
  "rewrite_cache_control file_options =
     (case file_options ''cache-control'' of
        None \<Rightarrow> file_options
      | Some cache_control \<Rightarrow>
          if cache_control \<noteq> []
          then file_options(''cache-control'' \<mapsto> ''max-age='' @ cache_control)
          else file_options)"

text \<open>
  The \<^verbatim>\<open>isinstance\<close> test on \<^verbatim>\<open>file\<close>: bytes and open file objects are used as they
  are, anything else is opened for reading.
\<close>

definition file_object :: "world \<Rightarrow> payload \<Rightarrow> (error + file_source) \<times> world" where
  "file_object w file =
     (case file of
        FBytes b \<Rightarrow> (Inr (SrcBytes b), w)
      | FStream h \<Rightarrow> (Inr (SrcHandle h), w)
      | FPath p \<Rightarrow>
          (case open_rb w p of
             (Inl e, w') \<Rightarrow> (Inl e, w')
           | (Inr h, w') \<Rightarrow> (Inr (SrcHandle h), w')))"

text \<open>
  \<^verbatim>\<open>upload\<close>. \<open>dfo\<close> is the constant \<^verbatim>\<open>DEFAULT_FILE_OPTIONS\<close> of \<^verbatim>\<open>storage3/constants.py\<close>,
  which is not under src/. The result is the method's outcome, the caller's
  \<^verbatim>\<open>file_options\<close> object as the call leaves it (\<open>None\<close> when the caller passed none), and
  the world. The multipart tuple is evaluated left to right: the file is opened before
  \<^verbatim>\<open>headers.pop("content-type")\<close>, which raises \<^verbatim>\<open>KeyError\<close> when no layer has the key.
\<close>

definition upload ::
  "client \<Rightarrow> string \<Rightarrow> (string \<rightharpoonup> string) \<Rightarrow> world \<Rightarrow> string \<Rightarrow> payload
     \<Rightarrow> (string \<rightharpoonup> string) option
     \<Rightarrow> (error + response) \<times> (string \<rightharpoonup> string) option \<times> world" where
  "upload cl bucket_id dfo w path file file_options =
     (let opts = rewrite_cache_control (case file_options of None \<Rightarrow> Map.empty | Some m \<Rightarrow> m);
          caller = map_option (\<lambda>_. opts) file_options;
          hdrs = cl_headers cl ++ dfo ++ opts;
          filename = rsplit_last path
      in case file_object w file of
           (Inl e, w1) \<Rightarrow> (Inl e, caller, w1)
         | (Inr src, w1) \<Rightarrow>
             (case hdrs ''content-type'' of
                None \<Rightarrow> (Inl (KeyError ''content-type''), caller, w1)
              | Some ctype \<Rightarrow>
                  (let files = [(''file'', (filename, src, ctype))];
                       fpath = get_final_path bucket_id path
                   in case request cl w1 ''POST'' (''/object/'' @ fpath)
                             (Some (hdrs(''content-type'' := None))) None (Some files) of
                        (r, w2) \<Rightarrow> (r, caller, w2))))"

text \<open>\<^verbatim>\<open>upload_to_signed_url\<close>: the URL is built first, then the same steps.\<close>

definition upload_to_signed_url ::
  "client \<Rightarrow> string \<Rightarrow> (string \<rightharpoonup> string) \<Rightarrow> world \<Rightarrow> string \<Rightarrow> string \<Rightarrow> payload
     \<Rightarrow> (string \<rightharpoonup> string) option
     \<Rightarrow> (error + response) \<times> (string \<rightharpoonup> string) option \<times> world" where
  "upload_to_signed_url cl bucket_id dfo w path token file file_options =
     (let fpath = get_final_path bucket_id path
      in case urlparse (''/object/upload/sign/'' @ fpath) of
           Inl e \<Rightarrow> (Inl e, file_options, w)
         | Inr url \<Rightarrow>
             (let query_params = urlencode [(''token'', PStr token)];
                  final_url = geturl url @ ''?'' @ query_params;
                  opts = rewrite_cache_control
                           (case file_options of None \<Rightarrow> Map.empty | Some m \<Rightarrow> m);
                  caller = map_option (\<lambda>_. opts) file_options;
                  hdrs = cl_headers cl ++ dfo ++ opts;
                  filename = rsplit_last path
              in case file_object w file of
                   (Inl e, w1) \<Rightarrow> (Inl e, caller, w1)
                 | (Inr src, w1) \<Rightarrow>
                     (case hdrs ''content-type'' of
                        None \<Rightarrow> (Inl (KeyError ''content-type''), caller, w1)
                      | Some ctype \<Rightarrow>
                          (let files = [(''file'', (filename, src, ctype))]
                           in case request cl w1 ''PUT'' final_url
                                     (Some (hdrs(''content-type'' := None))) None (Some files) of
                                (r, w2) \<Rightarrow> (r, caller, w2)))))"

text \<open>
  \<^verbatim>\<open>data["signedURL"] = f"{base_url}{data['signedURL'].lstrip('/')}"\<close> on one decoded
  dict. A value without \<^verbatim>\<open>lstrip\<close> (JSON \<^verbatim>\<open>null\<close>, a number) is an
  \<^verbatim>\<open>AttributeError\<close>.
\<close>

definition rewrite_signed_url :: "string \<Rightarrow> json \<Rightarrow> error + json" where
  "rewrite_signed_url base item =
     (case getitem item ''signedURL'' of
        Inl e \<Rightarrow> Inl e
      | Inr (JStr s) \<Rightarrow>
          (case item of
             JObj kvs \<Rightarrow>
               Inr (JObj (AList.update ''signedURL'' (JStr (base @ lstrip_slash s)) kvs))
           | _ \<Rightarrow> Inl TypeError)
      | Inr _ \<Rightarrow> Inl AttributeError)"

text \<open>\<^verbatim>\<open>create_signed_url\<close>; \<open>options\<close> is the dict of \<^verbatim>\<open>CreateSignedURLOptions\<close>.\<close>

definition create_signed_url ::
  "client \<Rightarrow> string \<Rightarrow> world \<Rightarrow> string \<Rightarrow> int \<Rightarrow> (string \<times> json) list
     \<Rightarrow> (error + json) \<times> world" where
  "create_signed_url cl bucket_id w path expires_in options =
     (let body0 = [(''expiresIn'', JStr (str_int expires_in))];
          body1 = (case map_of options ''download'' of
                     None \<Rightarrow> body0
                   | Some d \<Rightarrow> if truthy d then AList.update ''download'' d body0 else body0);
          body2 = (case map_of options ''transform'' of
                     None \<Rightarrow> body1
                   | Some t \<Rightarrow> if truthy t then AList.update ''transform'' t body1 else body1);
          fpath = get_final_path bucket_id path
      in case request cl w ''POST'' (''/object/sign/'' @ fpath) None (Some (JObj body2)) None of
           (Inl e, w') \<Rightarrow> (Inl e, w')
         | (Inr resp, w') \<Rightarrow>
             (case json_body resp of
                None \<Rightarrow> (Inl JSONDecodeError, w')
              | Some data \<Rightarrow> (rewrite_signed_url (cl_base_url cl) data, w')))"

text \<open>
  The loop \<^verbatim>\<open>for item in data: item["signedURL"] = ...\<close> over a decoded array. The first
  item that cannot be rewritten raises, and the array is then never returned.
\<close>

fun rewrite_items :: "string \<Rightarrow> json list \<Rightarrow> error + json list" where
  "rewrite_items base [] = Inr []"
| "rewrite_items base (item # rest) =
     (case rewrite_signed_url base item of
        Inl e \<Rightarrow> Inl e
      | Inr item' \<Rightarrow>
          (case rewrite_items base rest of
             Inl e \<Rightarrow> Inl e
           | Inr rest' \<Rightarrow> Inr (item' # rest')))"

text \<open>
  The JSON body of \<^verbatim>\<open>create_signed_urls\<close>: \<^verbatim>\<open>paths\<close>, \<^verbatim>\<open>expiresIn\<close> as a string, and
  \<^verbatim>\<open>download\<close> when the option is truthy.
\<close>

definition signed_urls_body :: "string list \<Rightarrow> int \<Rightarrow> (string \<times> json) list \<Rightarrow> json" where
  "signed_urls_body paths expires_in options =
     (let body = [(''paths'', JArr (map JStr paths)), (''expiresIn'', JStr (str_int expires_in))]
      in case map_of options ''download'' of
           None \<Rightarrow> JObj body
         | Some d \<Rightarrow> if truthy d then JObj (AList.update ''download'' d body) else JObj body)"

text \<open>
  \<^verbatim>\<open>create_signed_urls\<close>. Iterating a decoded value that is not an array: an empty dict or
  string has no items and is returned as it is, a non-empty one yields strings, which
  cannot be indexed by \<^verbatim>\<open>"signedURL"\<close>; \<^verbatim>\<open>null\<close>, a boolean and a number are not iterable.
\<close>

definition create_signed_urls ::
  "client \<Rightarrow> string \<Rightarrow> world \<Rightarrow> string list \<Rightarrow> int \<Rightarrow> (string \<times> json) list
     \<Rightarrow> (error + json) \<times> world" where
  "create_signed_urls cl bucket_id w paths expires_in options =
     (case request cl w ''POST'' (''/object/sign/'' @ bucket_id) None
             (Some (signed_urls_body paths expires_in options)) None of
           (Inl e, w') \<Rightarrow> (Inl e, w')
         | (Inr resp, w') \<Rightarrow>
             (case json_body resp of
                None \<Rightarrow> (Inl JSONDecodeError, w')
              | Some data \<Rightarrow>
                  (case data of
                     JArr items \<Rightarrow>
                       (case rewrite_items (cl_base_url cl) items of
                          Inl e \<Rightarrow> (Inl e, w')
                        | Inr items' \<Rightarrow> (Inr (JArr items'), w'))
                   | JObj kvs \<Rightarrow> if kvs = [] then (Inr data, w') else (Inl TypeError, w')
                   | JStr s \<Rightarrow> if s = [] then (Inr data, w') else (Inl TypeError, w')
                   | _ \<Rightarrow> (Inl TypeError, w'))))"

text \<open>\<^verbatim>\<open>get_public_url\<close>: no request is made.\<close>

definition get_public_url :: "client \<Rightarrow> string \<Rightarrow> string \<Rightarrow> (string \<times> pyval) list \<Rightarrow> string" where
  "get_public_url cl bucket_id path options =
     (let render_path = (if (case map_of options ''transform'' of
                               None \<Rightarrow> False
                             | Some t \<Rightarrow> py_truthy t)
                         then ''render/image'' else ''object'');
          transformation_query = urlencode options;
          query_string = (if transformation_query \<noteq> [] then ''?'' @ transformation_query else []);
          fpath = get_final_path bucket_id path
      in cl_base_url cl @ render_path @ ''/public/'' @ fpath @ query_string)"

section \<open>The token rule in the words of the specification\<close>

text \<open>
  "After creating a signed upload URL, the response's \<^verbatim>\<open>url\<close> field is parsed as a URL;
  its query parameters are parsed; the \<^verbatim>\<open>token\<close> parameter must be present and
  non-empty." Read on the \<^verbatim>\<open>url\<close> field alone: its query is what stands between the first
  \<^verbatim>\<open>?\<close> and the first \<^verbatim>\<open>#\<close> once tabs and newlines are dropped; the parameters are the
  fields between \<^verbatim>\<open>&\<close>; a field is a token parameter when it has the form
  \<^verbatim>\<open>name=value\<close>, the name reads \<^verbatim>\<open>token\<close> after decoding and the value is not empty.
\<close>

definition spec_url_query :: "string \<Rightarrow> string" where
  "spec_url_query u =
     (case split_first (CHR ''?'')
             (takeWhile (\<lambda>c. c \<noteq> CHR ''#'') (filter (\<lambda>c. \<not> is_unsafe_url_byte c) u)) of
        None \<Rightarrow> []
      | Some (p, q) \<Rightarrow> q)"

definition spec_token_field :: "string \<Rightarrow> bool" where
  "spec_token_field f =
     (case split_first (CHR ''='') f of
        None \<Rightarrow> False
      | Some (n, v) \<Rightarrow> unquote (plus_to_space n) = ''token'' \<and> v \<noteq> [])"

definition spec_has_token :: "string \<Rightarrow> bool" where
  "spec_has_token u = list_ex spec_token_field (split_all (CHR ''&'') (spec_url_query u))"

text \<open>
  The characters of a plain host: a DNS name or an IPv4 address, with an optional port.
\<close>

definition is_host_char :: "char \<Rightarrow> bool" where
  "is_host_char c =
     (is_ascii_alpha c \<or> is_ascii_digit c \<or> c = CHR ''.'' \<or> c = CHR ''-'' \<or> c = CHR '':'')"

section \<open>Concrete inputs\<close>

text \<open>
  A client with base URL \<^verbatim>\<open>https://x/\<close> and no default headers whose transport answers
  every request with \<open>resp\<close>, and a world with no files, no file objects and an empty
  log.
\<close>

definition answering :: "response \<Rightarrow> client" where
  "answering resp =
     \<lparr>cl_base_url = ''https://x/'', cl_headers = Map.empty, cl_transport = (\<lambda>req. Inr resp)\<rparr>"

definition empty_world :: world where
  "empty_world = \<lparr>fs = Map.empty, handles = [], sent = []\<rparr>"

definition json_response :: "int \<Rightarrow> json \<Rightarrow> response" where
  "json_response sc body = \<lparr>status_code = sc, json_body = Some body, content = []\<rparr>"

section \<open>Facts about the URL functions\<close>

lemmas url_eval = urlparse_def urlsplit_def clean_url_def is_c0_or_space_def
  is_unsafe_url_byte_def split_first_def is_ascii_alpha_def
  is_scheme_char_def is_ascii_digit_def ascii_lower_def splitnetloc_def is_netloc_delim_def
  uses_params_def uses_netloc_def geturl_def splitparams_def rsplit_last_def

lemmas qs_eval = parse_qs_def parse_qsl_def parse_field_def plus_to_space_def add_value_def
  is_ascii_char_def utf8_step_def

lemmas req_eval = request_def client_request_def is_success_def getitem_def answering_def
  empty_world_def json_response_def get_final_path_def

text \<open>
  A URL that starts with one slash has no scheme and no host, and always parses.
\<close>

lemma split_first_rooted:
  "split_first (CHR '':'') (CHR ''/'' # s) = None \<or>
   (\<exists>pre rest. split_first (CHR '':'') (CHR ''/'' # s) = Some (CHR ''/'' # pre, rest))"
  by (simp add: split_first_def split: list.splits)

lemma not_alpha_slash: "\<not> is_ascii_alpha (CHR ''/'')"
  by (simp add: is_ascii_alpha_def)

lemma urlsplit_rooted:
  assumes "clean_url url = CHR ''/'' # c # s" and "c \<noteq> CHR ''/''"
  shows "\<exists>p q f. urlsplit url = Inr ('''', '''', p, q, f)"
proof -
  have nd: "take 2 (CHR ''/'' # c # s) \<noteq> ''//''" using assms(2) by simp
  from split_first_rooted [of "c # s"] show ?thesis
  proof
    assume "split_first (CHR '':'') (CHR ''/'' # c # s) = None"
    then show ?thesis using nd assms(1)
      by (simp add: urlsplit_def Let_def split: option.splits prod.splits)
  next
    assume "\<exists>pre rest. split_first (CHR '':'') (CHR ''/'' # c # s) = Some (CHR ''/'' # pre, rest)"
    then obtain pre rest
      where "split_first (CHR '':'') (CHR ''/'' # c # s) = Some (CHR ''/'' # pre, rest)"
      by blast
    then show ?thesis using nd not_alpha_slash assms(1)
      by (simp add: urlsplit_def Let_def split: option.splits prod.splits)
  qed
qed

lemma urlparse_rooted:
  assumes "clean_url url = CHR ''/'' # c # s" and "c \<noteq> CHR ''/''"
  shows "\<exists>u. urlparse url = Inr u"
proof -
  obtain p q f where "urlsplit url = Inr ('''', '''', p, q, f)"
    using urlsplit_rooted [OF assms] by blast
  then show ?thesis
    by (simp add: urlparse_def Let_def split: prod.splits)
qed

lemma clean_url_upload_sign:
  "clean_url (''/object/upload/sign/'' @ x)
   = CHR ''/'' # CHR ''o'' # ''bject/upload/sign/'' @ filter (\<lambda>c. \<not> is_unsafe_url_byte c) x"
  by (simp add: clean_url_def is_c0_or_space_def is_unsafe_url_byte_def)

lemma urlparse_upload_sign: "\<exists>u. urlparse (''/object/upload/sign/'' @ x) = Inr u"
  by (rule urlparse_rooted [OF clean_url_upload_sign]) simp

text \<open>
  Splitting at the first occurrence of a character, and what a prefix without that
  character changes.
\<close>

lemma dropWhile_prefix:
  "c \<notin> set p \<Longrightarrow> dropWhile (\<lambda>x. x \<noteq> c) (p @ s) = dropWhile (\<lambda>x. x \<noteq> c) s"
  by (induction p) auto

lemma takeWhile_prefix:
  "c \<notin> set p \<Longrightarrow> takeWhile (\<lambda>x. x \<noteq> c) (p @ s) = p @ takeWhile (\<lambda>x. x \<noteq> c) s"
  by (induction p) auto

lemma split_first_stop: "c \<notin> set p \<Longrightarrow> split_first c (p @ c # s) = Some (p, s)"
  by (simp add: split_first_def dropWhile_prefix takeWhile_prefix)

lemma split_first_prefix:
  assumes "c \<notin> set p"
  shows "split_first c (p @ s) = map_option (\<lambda>ab. (p @ fst ab, snd ab)) (split_first c s)"
proof (cases "dropWhile (\<lambda>x. x \<noteq> c) s")
  case Nil
  show ?thesis
    unfolding split_first_def dropWhile_prefix [OF assms] Nil by simp
next
  case (Cons a list)
  show ?thesis
    unfolding split_first_def dropWhile_prefix [OF assms] takeWhile_prefix [OF assms] Cons
    by simp
qed

lemma split_first_SomeD:
  "split_first c s = Some (a, b) \<Longrightarrow> a = takeWhile (\<lambda>x. x \<noteq> c) s"
  by (simp add: split_first_def split: list.splits)

lemma split_first_NoneD:
  "split_first c s = None \<Longrightarrow> takeWhile (\<lambda>x. x \<noteq> c) s = s"
  by (simp add: split_first_def split: list.splits)

text \<open>
  An absolute URL \<^verbatim>\<open>scheme://host/rest\<close> followed by any text \<open>u\<close>, where \<open>rest\<close> has
  no query and no fragment: the URL always parses, the host is \<open>host\<close>, and the query
  is the query of \<open>u\<close>.
\<close>

lemma scheme_char_facts:
  assumes "is_scheme_char c"
  shows "c \<noteq> CHR '':''" and "\<not> is_unsafe_url_byte c"
  using assms
  by (auto simp: is_scheme_char_def is_ascii_alpha_def is_ascii_digit_def
                 is_unsafe_url_byte_def Let_def)

lemma host_char_facts:
  assumes "is_host_char c"
  shows "\<not> is_netloc_delim c" and "\<not> is_unsafe_url_byte c"
    and "c \<noteq> CHR ''[''" and "c \<noteq> CHR '']''"
  using assms
  by (auto simp: is_host_char_def is_ascii_alpha_def is_ascii_digit_def
                 is_unsafe_url_byte_def is_netloc_delim_def Let_def)

lemma alpha_not_c0: "is_ascii_alpha c \<Longrightarrow> \<not> is_c0_or_space c"
  by (auto simp: is_ascii_alpha_def is_c0_or_space_def Let_def)

lemma urlsplit_tail:
  "\<exists>path frag.
     (let (url3, fragment) =
            (case split_first (CHR ''#'') R of None \<Rightarrow> (R, '''') | Some (a, b) \<Rightarrow> (a, b));
          (url4, query) =
            (case split_first (CHR ''?'') url3 of None \<Rightarrow> (url3, '''') | Some (a, b) \<Rightarrow> (a, b))
      in (Inr (s, n, url4, query, fragment) :: error + (string \<times> string \<times> string \<times> string \<times> string)))
     = Inr (s, n, path,
            (case split_first (CHR ''?'') (takeWhile (\<lambda>c. c \<noteq> CHR ''#'') R) of
               None \<Rightarrow> [] | Some (a, b) \<Rightarrow> b),
            frag)"
proof (cases "split_first (CHR ''#'') R")
  case None
  then have tw: "takeWhile (\<lambda>c. c \<noteq> CHR ''#'') R = R" by (rule split_first_NoneD)
  show ?thesis by (simp add: None tw split: option.splits prod.splits)
next
  case (Some ab)
  obtain a b where ab: "ab = (a, b)" by (cases ab)
  have tw: "takeWhile (\<lambda>c. c \<noteq> CHR ''#'') R = a"
    using Some ab split_first_SomeD [of "CHR ''#''" R a b] by simp
  show ?thesis by (simp add: Some ab tw split: option.splits prod.splits)
qed

lemma clean_url_absolute:
  assumes "scheme \<noteq> []" and "is_ascii_alpha (hd scheme)"
      and "list_all is_scheme_char scheme" and "list_all is_host_char host"
  shows "clean_url (scheme @ ''://'' @ host @ ''/'' @ t)
         = scheme @ ''://'' @ host @ ''/'' @ filter (\<lambda>c. \<not> is_unsafe_url_byte c) t"
proof -
  obtain a as where sc: "scheme = a # as" using assms(1) by (cases scheme) auto
  have "\<not> is_c0_or_space a" using assms(2) sc alpha_not_c0 by simp
  then have dw: "dropWhile is_c0_or_space (scheme @ ''://'' @ host @ ''/'' @ t)
                 = scheme @ ''://'' @ host @ ''/'' @ t"
    using sc by simp
  have fs: "filter (\<lambda>c. \<not> is_unsafe_url_byte c) scheme = scheme"
    using assms(3) scheme_char_facts(2) by (simp add: list_all_iff filter_id_conv)
  have fh: "filter (\<lambda>c. \<not> is_unsafe_url_byte c) host = host"
    using assms(4) host_char_facts(2) by (simp add: list_all_iff filter_id_conv)
  have c1: "\<not> is_unsafe_url_byte (CHR '':'')" and c2: "\<not> is_unsafe_url_byte (CHR ''/'')"
    by (simp_all add: is_unsafe_url_byte_def)
  show ?thesis
    unfolding clean_url_def dw
    by (simp add: fs fh c1 c2)
qed

lemma splitnetloc_host:
  assumes "list_all is_host_char host"
  shows "splitnetloc (''//'' @ host @ ''/'' @ t) = (host, ''/'' @ t)"
proof -
  have nd: "\<forall>c \<in> set host. \<not> is_netloc_delim c"
    using assms host_char_facts(1) by (simp add: list_all_iff)
  have "takeWhile (\<lambda>c. \<not> is_netloc_delim c) (host @ CHR ''/'' # t) = host"
    using nd by (simp add: takeWhile_append2 is_netloc_delim_def)
  moreover have "dropWhile (\<lambda>c. \<not> is_netloc_delim c) (host @ CHR ''/'' # t) = CHR ''/'' # t"
    using nd by (simp add: dropWhile_append2 is_netloc_delim_def)
  ultimately show ?thesis by (simp add: splitnetloc_def)
qed

lemma urlsplit_absolute:
  assumes "scheme \<noteq> []" and "is_ascii_alpha (hd scheme)"
      and "list_all is_scheme_char scheme" and "list_all is_host_char host"
      and "CHR ''?'' \<notin> set rest" and "CHR ''#'' \<notin> set rest"
  shows "\<exists>path frag. urlsplit (scheme @ ''://'' @ host @ ''/'' @ rest @ u)
           = Inr (map ascii_lower scheme, host, path, spec_url_query u, frag)"
proof -
  let ?safe = "\<lambda>c. \<not> is_unsafe_url_byte c"
  define p where "p = CHR ''/'' # filter ?safe rest"
  define v where "v = filter ?safe u"
  define R where "R = p @ v"
  define T where "T = ''//'' @ host @ R"
  have cl: "clean_url (scheme @ ''://'' @ host @ ''/'' @ rest @ u) = scheme @ CHR '':'' # T"
    using clean_url_absolute [OF assms(1-4), of "rest @ u"]
    by (simp add: T_def R_def p_def v_def)
  have nc: "CHR '':'' \<notin> set scheme"
    using assms(3) scheme_char_facts(1) by (auto simp: list_all_iff)
  have sf: "split_first (CHR '':'') (scheme @ CHR '':'' # T) = Some (scheme, T)"
    by (rule split_first_stop [OF nc])
  have tk: "take 2 T = ''//''" by (simp add: T_def)
  have sn: "splitnetloc T = (host, R)"
    using splitnetloc_host [OF assms(4), of "filter ?safe rest @ v"]
    by (simp add: T_def R_def p_def)
  have br: "CHR ''['' \<notin> set host" "CHR '']'' \<notin> set host"
    using assms(4) host_char_facts(3,4) by (auto simp: list_all_iff)
  have pq: "CHR ''?'' \<notin> set p" and ph: "CHR ''#'' \<notin> set p"
    using assms(5,6) by (auto simp: p_def)
  have q: "(case split_first (CHR ''?'') (takeWhile (\<lambda>c. c \<noteq> CHR ''#'') R) of
              None \<Rightarrow> [] | Some (a, b) \<Rightarrow> b) = spec_url_query u"
    unfolding R_def takeWhile_prefix [OF ph] split_first_prefix [OF pq] spec_url_query_def v_def
    by (simp split: option.splits prod.splits)
  obtain path frag where
    "(let (url3, fragment) =
            (case split_first (CHR ''#'') R of None \<Rightarrow> (R, '''') | Some (a, b) \<Rightarrow> (a, b));
          (url4, query) =
            (case split_first (CHR ''?'') url3 of None \<Rightarrow> (url3, '''') | Some (a, b) \<Rightarrow> (a, b))
      in (Inr (map ascii_lower scheme, host, url4, query, fragment)
            :: error + (string \<times> string \<times> string \<times> string \<times> string)))
     = Inr (map ascii_lower scheme, host, path, spec_url_query u, frag)"
    using urlsplit_tail [of R "map ascii_lower scheme" host] unfolding q by blast
  then have "urlsplit (scheme @ ''://'' @ host @ ''/'' @ rest @ u)
             = Inr (map ascii_lower scheme, host, path, spec_url_query u, frag)"
    unfolding urlsplit_def cl
    using assms(1-3) br
    by (simp add: sf tk sn)
  then show ?thesis by blast
qed

lemma urlparse_absolute:
  assumes "scheme \<noteq> []" and "is_ascii_alpha (hd scheme)"
      and "list_all is_scheme_char scheme" and "list_all is_host_char host"
      and "CHR ''?'' \<notin> set rest" and "CHR ''#'' \<notin> set rest"
  shows "\<exists>full. urlparse (scheme @ ''://'' @ host @ ''/'' @ rest @ u) = Inr full
                \<and> pr_query full = spec_url_query u"
proof -
  obtain path frag where
    "urlsplit (scheme @ ''://'' @ host @ ''/'' @ rest @ u)
       = Inr (map ascii_lower scheme, host, path, spec_url_query u, frag)"
    using urlsplit_absolute [OF assms] by blast
  then show ?thesis
    by (simp add: urlparse_def Let_def split: prod.splits)
qed

text \<open>
  Every value that \<open>parse_qs\<close> returns is a non-empty list of non-empty strings.
\<close>

lemma unquote_to_bytes_nonempty: "s \<noteq> [] \<Longrightarrow> unquote_to_bytes s \<noteq> []"
  by (cases s) (auto split: list.splits)

lemma utf8_step_nonempty: "fst (utf8_step b rest) \<noteq> []"
  by (simp add: utf8_step_def replacement_char_def Let_def split: list.splits)

lemma utf8_replace_nonempty: "bs \<noteq> [] \<Longrightarrow> utf8_replace bs \<noteq> []"
  by (cases bs) (simp_all add: utf8_step_nonempty)

lemma unquote_nonempty: "s \<noteq> [] \<Longrightarrow> unquote s \<noteq> []"
proof (cases s)
  case Nil
  then show "s \<noteq> [] \<Longrightarrow> unquote s \<noteq> []" by simp
next
  case (Cons c cs)
  have "unquote_to_bytes (c # takeWhile is_ascii_char cs) \<noteq> []"
    by (rule unquote_to_bytes_nonempty) simp
  then have "utf8_replace (unquote_to_bytes (c # takeWhile is_ascii_char cs)) \<noteq> []"
    by (rule utf8_replace_nonempty)
  then show ?thesis using Cons by simp
qed

lemma parse_field_values: "(n, v) \<in> set (parse_field f) \<Longrightarrow> v \<noteq> []"
  by (auto simp: parse_field_def unquote_nonempty plus_to_space_def
           split: if_splits option.splits)

lemma parse_qsl_values: "(n, v) \<in> set (parse_qsl qs) \<Longrightarrow> v \<noteq> []"
  by (auto simp: parse_qsl_def dest: parse_field_values)

lemma add_value_inv:
  assumes "\<forall>k vs. m k = Some vs \<longrightarrow> vs \<noteq> [] \<and> [] \<notin> set vs"
      and "snd nv \<noteq> []"
  shows "\<forall>k vs. add_value m nv k = Some vs \<longrightarrow> vs \<noteq> [] \<and> [] \<notin> set vs"
proof (cases "m (fst nv)")
  case None
  then show ?thesis using assms by (auto simp: add_value_def split: if_splits)
next
  case (Some ws)
  then have "ws \<noteq> [] \<and> [] \<notin> set ws" using assms(1) by blast
  then show ?thesis using Some assms by (auto simp: add_value_def split: if_splits)
qed

lemma foldl_add_value_inv:
  "\<forall>k vs. m k = Some vs \<longrightarrow> vs \<noteq> [] \<and> [] \<notin> set vs \<Longrightarrow>
   \<forall>nv \<in> set nvs. snd nv \<noteq> [] \<Longrightarrow>
   \<forall>k vs. foldl add_value m nvs k = Some vs \<longrightarrow> vs \<noteq> [] \<and> [] \<notin> set vs"
proof (induction nvs arbitrary: m)
  case Nil
  then show ?case by simp
next
  case (Cons nv nvs)
  have v: "snd nv \<noteq> []" using Cons.prems(2) by simp
  have rest: "\<forall>x \<in> set nvs. snd x \<noteq> []" using Cons.prems(2) by simp
  show ?case
    using Cons.IH [OF add_value_inv [OF Cons.prems(1) v] rest] by simp
qed

lemma parse_qs_values:
  assumes "parse_qs qs k = Some vs"
  shows "vs \<noteq> [] \<and> [] \<notin> set vs"
proof -
  have "\<forall>nv \<in> set (parse_qsl qs). snd nv \<noteq> []"
    using parse_qsl_values by auto
  then show ?thesis
    using foldl_add_value_inv [of Map.empty "parse_qsl qs"] assms
    by (simp add: parse_qs_def)
qed

text \<open>
  \<open>parse_qs\<close> has an entry for \<^verbatim>\<open>token\<close> exactly when some field of the query is a token
  parameter.
\<close>

lemma add_value_dom: "dom (add_value m nv) = insert (fst nv) (dom m)"
  by (auto simp: add_value_def split: option.splits if_splits)

lemma foldl_add_value_dom: "dom (foldl add_value m nvs) = dom m \<union> fst ` set nvs"
  by (induction nvs arbitrary: m) (auto simp: add_value_dom)

lemma parse_qs_None: "parse_qs qs k = None \<longleftrightarrow> k \<notin> fst ` set (parse_qsl qs)"
  using foldl_add_value_dom [of Map.empty "parse_qsl qs"]
  by (auto simp: parse_qs_def domIff)

lemma parse_field_token:
  "''token'' \<in> fst ` set (parse_field f) \<longleftrightarrow> spec_token_field f"
  by (auto simp: parse_field_def spec_token_field_def split_first_def
           split: option.splits if_splits list.splits)

lemma parse_qsl_token:
  "''token'' \<in> fst ` set (parse_qsl qs)
   \<longleftrightarrow> list_ex spec_token_field (split_all (CHR ''&'') qs)"
proof -
  have "''token'' \<in> fst ` set (parse_qsl qs)
        \<longleftrightarrow> (\<exists>f \<in> set (split_all (CHR ''&'') qs). ''token'' \<in> fst ` set (parse_field f))"
    by (auto simp: parse_qsl_def)
  then show ?thesis by (simp add: parse_field_token list_ex_iff)
qed

lemma parse_qs_token_None:
  "parse_qs qs ''token'' = None \<longleftrightarrow> \<not> list_ex spec_token_field (split_all (CHR ''&'') qs)"
  by (simp add: parse_qs_None parse_qsl_token)

section \<open>Facts about the requests\<close>

text \<open>
  What a call leaves in the world: \<open>file_object\<close> never touches the log, a request
  never touches the file objects, and a request with one readable file part logs exactly
  that part.
\<close>

lemma file_object_sent: "file_object w file = (r, w1) \<Longrightarrow> sent w1 = sent w"
  by (auto simp: file_object_def open_rb_def split: payload.splits option.splits)

lemma file_object_bytes: "file_object w (FBytes data) = (Inr (SrcBytes data), w)"
  by (simp add: file_object_def)

lemma file_object_path:
  "fs w fp = Some data \<Longrightarrow>
   file_object w (FPath fp) =
     (Inr (SrcHandle (length (handles w))),
      w\<lparr>handles := handles w @ [\<lparr>h_data = data, h_closed = False\<rparr>]\<rparr>)"
  by (simp add: file_object_def open_rb_def)

lemma read_source_bytes: "read_source w (SrcBytes data) = Inr data"
  by (simp add: read_source_def)

lemma read_source_fresh:
  "read_source (w\<lparr>handles := handles w @ [\<lparr>h_data = data, h_closed = False\<rparr>]\<rparr>)
     (SrcHandle (length (handles w))) = Inr data"
  by (simp add: read_source_def)



lemma request_one_file:
  assumes "read_source w src = Inr data"
  shows "snd (request cl w m u (Some h) None (Some [(''file'', (fname, src, ct))]))
         = w\<lparr>sent := sent w @ [\<lparr>w_method = m, w_url = u, w_headers = h, w_json = None,
               w_files = [(''file'', \<lparr>part_filename = fname, part_content = data,
                                      part_content_type = ct\<rparr>)]\<rparr>]\<rparr>"
  using assms
  by (auto simp: request_def client_request_def Let_def
           split: sum.splits option.splits json.splits)

lemma request_same_bytes:
  assumes "read_source w src = Inr data" and "read_source w' src' = Inr data"
  shows "fst (request cl w m u h body (Some [(n, (fname, src, ct))]))
         = fst (request cl w' m u h body (Some [(n, (fname, src', ct))]))"
  using assms
  by (auto simp: request_def client_request_def Let_def
           split: sum.splits option.splits json.splits)



lemma upload_sends:
  assumes "file_object w file = (Inr src, w1)"
      and "read_source w1 src = Inr data"
      and "hdrs = cl_headers cl ++ dfo
                   ++ rewrite_cache_control (case fo of None \<Rightarrow> Map.empty | Some m \<Rightarrow> m)"
      and "hdrs ''content-type'' = Some ctype"
  shows "snd (snd (upload cl b dfo w path file fo))
         = w1\<lparr>sent := sent w1 @ [\<lparr>w_method = ''POST'',
               w_url = ''/object/'' @ get_final_path b path,
               w_headers = hdrs(''content-type'' := None), w_json = None,
               w_files = [(''file'', \<lparr>part_filename = rsplit_last path, part_content = data,
                                      part_content_type = ctype\<rparr>)]\<rparr>]\<rparr>"
proof -
  have "snd (snd (upload cl b dfo w path file fo))
        = snd (request cl w1 ''POST'' (''/object/'' @ get_final_path b path)
                 (Some (hdrs(''content-type'' := None))) None
                 (Some [(''file'', (rsplit_last path, src, ctype))]))"
    using assms(1,3,4) by (simp add: upload_def Let_def split: prod.splits)
  then show ?thesis using request_one_file [OF assms(2)] by simp
qed

lemma upload_to_signed_url_sends:
  assumes "file_object w file = (Inr src, w1)"
      and "read_source w1 src = Inr data"
      and "hdrs = cl_headers cl ++ dfo
                   ++ rewrite_cache_control (case fo of None \<Rightarrow> Map.empty | Some m \<Rightarrow> m)"
      and "hdrs ''content-type'' = Some ctype"
  shows "\<exists>url. snd (snd (upload_to_signed_url cl b dfo w path token file fo))
         = w1\<lparr>sent := sent w1 @ [\<lparr>w_method = ''PUT'', w_url = url,
               w_headers = hdrs(''content-type'' := None), w_json = None,
               w_files = [(''file'', \<lparr>part_filename = rsplit_last path, part_content = data,
                                      part_content_type = ctype\<rparr>)]\<rparr>]\<rparr>"
proof -
  obtain u where u: "urlparse (''/object/upload/sign/'' @ get_final_path b path) = Inr u"
    using urlparse_upload_sign by blast
  have "snd (snd (upload_to_signed_url cl b dfo w path token file fo))
        = snd (request cl w1 ''PUT'' (geturl u @ ''?'' @ urlencode [(''token'', PStr token)])
                 (Some (hdrs(''content-type'' := None))) None
                 (Some [(''file'', (rsplit_last path, src, ctype))]))"
    using assms(1,3,4) u by (simp add: upload_to_signed_url_def Let_def split: prod.splits)
  then have "snd (snd (upload_to_signed_url cl b dfo w path token file fo))
         = w1\<lparr>sent := sent w1 @ [\<lparr>w_method = ''PUT'',
               w_url = geturl u @ ''?'' @ urlencode [(''token'', PStr token)],
               w_headers = hdrs(''content-type'' := None), w_json = None,
               w_files = [(''file'', \<lparr>part_filename = rsplit_last path, part_content = data,
                                      part_content_type = ctype\<rparr>)]\<rparr>]\<rparr>"
    using request_one_file [OF assms(2)] by simp
  then show ?thesis by blast
qed



lemmas upload_eval = upload_def upload_to_signed_url_def file_object_def open_rb_def
  read_source_def rewrite_cache_control_def

lemma upload_result:
  assumes "file_object w file = (Inr src, w1)"
      and "hdrs = cl_headers cl ++ dfo
                   ++ rewrite_cache_control (case fo of None \<Rightarrow> Map.empty | Some m \<Rightarrow> m)"
      and "hdrs ''content-type'' = Some ctype"
  shows "fst (upload cl b dfo w path file fo)
         = fst (request cl w1 ''POST'' (''/object/'' @ get_final_path b path)
                  (Some (hdrs(''content-type'' := None))) None
                  (Some [(''file'', (rsplit_last path, src, ctype))]))"
  using assms by (simp add: upload_def Let_def split: prod.splits)

lemma rsplit_last_no_slash: "CHR ''/'' \<notin> set (rsplit_last path)"
  using set_takeWhileD [of "CHR ''/''" "\<lambda>c. c \<noteq> CHR ''/''" "rev path"]
  by (auto simp: rsplit_last_def)

lemma rsplit_last_suffix:
  "\<exists>pre. path = pre @ rsplit_last path \<and> (pre = [] \<or> last pre = CHR ''/'')"
proof -
  let ?P = "\<lambda>c. c \<noteq> CHR ''/''"
  let ?pre = "rev (dropWhile ?P (rev path))"
  have "rev path = takeWhile ?P (rev path) @ dropWhile ?P (rev path)" by simp
  then have "path = ?pre @ rsplit_last path"
    unfolding rsplit_last_def by (metis rev_append rev_rev_ident)
  moreover have "?pre = [] \<or> last ?pre = CHR ''/''"
    using hd_dropWhile [of ?P "rev path"] by (auto simp: last_rev)
  ultimately show ?thesis by blast
qed

section \<open>Facts about queries and signed URLs\<close>

lemma join_amp_starts: "join_amp (x # xs) = x \<or> (\<exists>r. join_amp (x # xs) = x @ r)"
  by (cases xs) auto

lemma urlencode_empty_iff: "urlencode T = [] \<longleftrightarrow> T = []"
proof (cases T)
  case Nil
  then show ?thesis by (simp add: urlencode_def)
next
  case (Cons kv rest)
  let ?f = "\<lambda>kv. quote_plus (fst kv) @ ''='' @ quote_plus (py_str (snd kv))"
  have "join_amp (?f kv # map ?f rest) \<noteq> []"
    using join_amp_starts [of "?f kv" "map ?f rest"] by auto
  then show ?thesis using Cons by (simp add: urlencode_def)
qed

lemma rewrite_items_each:
  "rewrite_items base items = Inr items'
   \<Longrightarrow> list_all2 (\<lambda>a b. rewrite_signed_url base a = Inr b) items items'"
  by (induction items arbitrary: items') (auto split: sum.splits)

lemma rewrite_items_total:
  "\<forall>item \<in> set items. \<exists>x. rewrite_signed_url base item = Inr x
   \<Longrightarrow> \<exists>items'. rewrite_items base items = Inr items'"
  by (induction items) (auto split: sum.splits)

lemma rewrite_signed_url_object:
  "map_of kvs ''signedURL'' = Some (JStr s) \<Longrightarrow>
   rewrite_signed_url base (JObj kvs)
     = Inr (JObj (AList.update ''signedURL'' (JStr (base @ lstrip_slash s)) kvs))"
  by (simp add: rewrite_signed_url_def getitem_def)

lemma update_present_keys:
  "map_of kvs k = Some v \<Longrightarrow> map fst (AList.update k v' kvs) = map fst kvs"
  by (induction kvs) (auto split: if_splits)

text \<open>
  What \<^verbatim>\<open>get_public_url\<close> computes: the render endpoint is chosen by the truth value of
  the entry \<^verbatim>\<open>transform\<close> of the options, the query string is there exactly when the
  options are not empty.
\<close>

lemma get_public_url_shape:
  "get_public_url cl b p T =
     cl_base_url cl
     @ (if (case map_of T ''transform'' of None \<Rightarrow> False | Some t \<Rightarrow> py_truthy t)
        then ''render/image/public'' else ''object/public'')
     @ ''/'' @ b @ ''/'' @ p
     @ (if T = [] then [] else ''?'' @ urlencode T)"
  by (simp add: get_public_url_def get_final_path_def Let_def urlencode_empty_iff)

text \<open>
  The two download-signing methods strip the leading slash of the relative URL before
  they put the base URL in front: with base \<^verbatim>\<open>https://x/\<close>, \<^verbatim>\<open>create_signed_url\<close> turns
  \<^verbatim>\<open>/object/sign/b/p?token=abc\<close> into \<^verbatim>\<open>https://x/object/sign/b/p?token=abc\<close>.
\<close>

lemma create_signed_url_strips_slash:
  "fst (create_signed_url
          (answering (json_response 200 (JObj [(''signedURL'', JStr ''/object/sign/b/p?token=abc'')])))
          ''b'' empty_world ''p'' 60 [])
   = Inr (JObj [(''signedURL'', JStr ''https://x/object/sign/b/p?token=abc'')])"
  by (simp add: create_signed_url_def req_eval rewrite_signed_url_def lstrip_slash_def Let_def)

text \<open>
  The other direction, for the same base URLs: when the \<^verbatim>\<open>url\<close> of the response does have
  a token parameter, \<^verbatim>\<open>create_signed_upload_url\<close> returns a result.
\<close>

lemma create_signed_upload_url_with_token:
  assumes "fst (request cl w ''POST'' (''/object/upload/sign/'' @ get_final_path b p)
                  None None None) = Inr resp"
      and "json_body resp = Some data" and "getitem data ''url'' = Inr (JStr u)"
      and "cl_base_url cl = scheme @ ''://'' @ host @ ''/'' @ rest"
      and "scheme \<noteq> []" and "is_ascii_alpha (hd scheme)"
      and "list_all is_scheme_char scheme" and "list_all is_host_char host"
      and "CHR ''?'' \<notin> set rest" and "CHR ''#'' \<notin> set rest"
      and "spec_has_token u"
  shows "\<exists>r. fst (create_signed_upload_url cl b w p) = Inr r \<and> su_path r = p"
proof -
  obtain full where
    full: "urlparse (scheme @ ''://'' @ host @ ''/'' @ rest @ u) = Inr full"
          "pr_query full = spec_url_query u"
    using urlparse_absolute [OF assms(5-10), of u] by blast
  have "parse_qs (pr_query full) ''token'' \<noteq> None"
    using assms(11) full(2) by (simp add: parse_qs_token_None spec_has_token_def)
  then obtain vs where vs: "parse_qs (pr_query full) ''token'' = Some vs" by blast
  then have ne: "vs \<noteq> []" using parse_qs_values by blast
  have parsed: "urlparse (cl_base_url cl @ u) = Inr full"
    using assms(4) full(1) by simp
  show ?thesis
    using assms(1-3) parsed vs ne
    by (auto simp: create_signed_upload_url_def Let_def split: prod.splits)
qed

section \<open>Properties\<close>

text \<open>
  C1: with base URL \<^verbatim>\<open>https://x/\<close>, bucket \<^verbatim>\<open>b\<close>, path \<^verbatim>\<open>p\<close> and the response body
  \<^verbatim>\<open>{"url": "/object/upload/sign/b/p?token=abc"}\<close>, \<^verbatim>\<open>create_signed_upload_url\<close> returns
  the token \<^verbatim>\<open>abc\<close> and the path \<^verbatim>\<open>p\<close>, but the signed URL keeps the leading slash of
  the relative part after the base URL's own: \<^verbatim>\<open>https://x//object/...\<close>, not the
  \<^verbatim>\<open>https://x/object/...\<close> of the claim.
\<close>

theorem create_signed_upload_url_keeps_slash:
  "fst (create_signed_upload_url
          (answering (json_response 200
             (JObj [(''url'', JStr ''/object/upload/sign/b/p?token=abc'')])))
          ''b'' empty_world ''p'')
   = Inr \<lparr>su_signed_url = ''https://x//object/upload/sign/b/p?token=abc'',
           su_token = ''abc'', su_path = ''p''\<rparr>"
  by (simp add: create_signed_upload_url_def req_eval url_eval qs_eval)

text \<open>
  C2, as stated, fails: a failing response whose body decodes to JSON that is not an
  object (here the array \<^verbatim>\<open>[]\<close> with status 500) raises \<^verbatim>\<open>TypeError\<close> from the
  \<^verbatim>\<open>**\<close> unpacking, not a \<^verbatim>\<open>StorageException\<close>.
\<close>

theorem request_non_object_body:
  "\<not> is_success 500
   \<and> fst (request (answering (json_response 500 (JArr []))) empty_world
             ''POST'' ''/object/move'' None None None) = Inl TypeError"
  by (simp add: req_eval)

text \<open>
  C2, amended: whenever the client's request returns a response whose status code is not
  2xx, \<^verbatim>\<open>_request\<close> raises: if the body decodes to a JSON object, a
  \<^verbatim>\<open>StorageException\<close> whose data is that object with \<^verbatim>\<open>statusCode\<close> set to the status
  code (every other key as in the body); if the body cannot be decoded, the decoding
  error itself. Every operation that makes a request makes it through \<^verbatim>\<open>_request\<close>.
\<close>

theorem request_failure_raises:
  assumes "fst (client_request cl w m u (case h of None \<Rightarrow> Map.empty | Some x \<Rightarrow> x) body files)
           = Inr resp"
      and "\<not> is_success (status_code resp)"
  shows "(json_body resp = Some (JObj kvs) \<longrightarrow>
            fst (request cl w m u h body files)
              = Inl (StorageException
                       (JObj (AList.update ''statusCode'' (JNum (status_code resp)) kvs)))
            \<and> map_of (AList.update ''statusCode'' (JNum (status_code resp)) kvs)
              = (map_of kvs)(''statusCode'' \<mapsto> JNum (status_code resp)))
       \<and> (json_body resp = None \<longrightarrow>
            fst (request cl w m u h body files) = Inl JSONDecodeError)"
  using assms
  by (auto simp: request_def update_conv' split: prod.splits)

theorem request_failure_raises_witness:
  "fst (request (answering (json_response 404 (JObj [(''error'', JStr ''not found'')])))
          empty_world ''GET'' ''object/b/p'' None None None)
     = Inl (StorageException (JObj [(''error'', JStr ''not found''), (''statusCode'', JNum 404)]))
   \<and> fst (request (answering \<lparr>status_code = 502, json_body = None, content = ''Bad Gateway''\<rparr>)
          empty_world ''GET'' ''object/b/p'' None None None)
     = Inl JSONDecodeError"
proof -
  let ?r1 = "json_response 404 (JObj [(''error'', JStr ''not found'')])"
  let ?r2 = "\<lparr>status_code = 502, json_body = None, content = ''Bad Gateway''\<rparr>"
  have a1: "fst (client_request (answering ?r1) empty_world ''GET'' ''object/b/p''
                   (case None of None \<Rightarrow> Map.empty | Some x \<Rightarrow> x) None None) = Inr ?r1"
    by (simp add: client_request_def answering_def)
  have f1: "\<not> is_success (status_code ?r1)"
    by (simp add: is_success_def json_response_def)
  have b1: "json_body ?r1 = Some (JObj [(''error'', JStr ''not found'')])"
    by (simp add: json_response_def)
  have a2: "fst (client_request (answering ?r2) empty_world ''GET'' ''object/b/p''
                   (case None of None \<Rightarrow> Map.empty | Some x \<Rightarrow> x) None None) = Inr ?r2"
    by (simp add: client_request_def answering_def)
  have f2: "\<not> is_success (status_code ?r2)"
    by (simp add: is_success_def)
  have b2: "json_body ?r2 = None" by simp
  from request_failure_raises [OF a1 f1, of "[(''error'', JStr ''not found'')]"] b1
  have c1: "fst (request (answering ?r1) empty_world ''GET'' ''object/b/p'' None None None)
            = Inl (StorageException
                     (JObj (AList.update ''statusCode'' (JNum (status_code ?r1))
                              [(''error'', JStr ''not found'')])))"
    by blast
  from request_failure_raises [OF a2 f2] b2
  have c2: "fst (request (answering ?r2) empty_world ''GET'' ''object/b/p'' None None None)
            = Inl JSONDecodeError"
    by blast
  show ?thesis using c1 c2 by (simp add: json_response_def)
qed

text \<open>
  C3: \<^verbatim>\<open>create_signed_upload_url\<close> never returns a result with an empty token, whatever
  the client, the world and the response. And when the request succeeds, the response
  body has a string \<^verbatim>\<open>url\<close>, the base URL is an absolute URL \<^verbatim>\<open>scheme://host/rest\<close> with
  a plain host and no query or fragment of its own, and the \<^verbatim>\<open>url\<close> has no token
  parameter in the sense of the specification (so also when its only token parameter is
  the empty \<^verbatim>\<open>token=\<close>), the call raises
  \<^verbatim>\<open>StorageException("No token sent by the API")\<close>.
\<close>

theorem create_signed_upload_url_token:
  "(fst (create_signed_upload_url cl b w p) = Inr r \<longrightarrow> su_token r \<noteq> [])
   \<and> (fst (request cl w ''POST'' (''/object/upload/sign/'' @ get_final_path b p)
               None None None) = Inr resp
        \<and> json_body resp = Some data \<and> getitem data ''url'' = Inr (JStr u)
        \<and> cl_base_url cl = scheme @ ''://'' @ host @ ''/'' @ rest
        \<and> scheme \<noteq> [] \<and> is_ascii_alpha (hd scheme) \<and> list_all is_scheme_char scheme
        \<and> list_all is_host_char host
        \<and> CHR ''?'' \<notin> set rest \<and> CHR ''#'' \<notin> set rest
        \<and> \<not> spec_has_token u
      \<longrightarrow> fst (create_signed_upload_url cl b w p)
            = Inl (StorageException (JStr ''No token sent by the API'')))"
proof (intro conjI impI)
  assume "fst (create_signed_upload_url cl b w p) = Inr r"
  then obtain q vs where "parse_qs q ''token'' = Some vs" "su_token r = hd vs"
    by (auto simp: create_signed_upload_url_def Let_def
             split: prod.splits sum.splits option.splits json.splits if_splits)
  then show "su_token r \<noteq> []"
    using parse_qs_values [of q "''token''" vs] by (cases vs) auto
next
  assume a: "fst (request cl w ''POST'' (''/object/upload/sign/'' @ get_final_path b p)
               None None None) = Inr resp
        \<and> json_body resp = Some data \<and> getitem data ''url'' = Inr (JStr u)
        \<and> cl_base_url cl = scheme @ ''://'' @ host @ ''/'' @ rest
        \<and> scheme \<noteq> [] \<and> is_ascii_alpha (hd scheme) \<and> list_all is_scheme_char scheme
        \<and> list_all is_host_char host
        \<and> CHR ''?'' \<notin> set rest \<and> CHR ''#'' \<notin> set rest
        \<and> \<not> spec_has_token u"
  then obtain full where
    full: "urlparse (scheme @ ''://'' @ host @ ''/'' @ rest @ u) = Inr full"
          "pr_query full = spec_url_query u"
    using urlparse_absolute [of scheme host rest u] by blast
  have none: "parse_qs (pr_query full) ''token'' = None"
    using a full(2) by (simp add: parse_qs_token_None spec_has_token_def)
  have parsed: "urlparse (cl_base_url cl @ u) = Inr full"
    using a full(1) by simp
  show "fst (create_signed_upload_url cl b w p)
        = Inl (StorageException (JStr ''No token sent by the API''))"
    using a parsed none
    by (auto simp: create_signed_upload_url_def Let_def split: prod.splits)
qed

theorem create_signed_upload_url_token_witness:
  "fst (create_signed_upload_url
          (answering (json_response 200 (JObj [(''url'', JStr ''/object/upload/sign/b/p?token=t1'')])))
          ''b'' empty_world ''p'')
     = Inr \<lparr>su_signed_url = ''https://x//object/upload/sign/b/p?token=t1'',
             su_token = ''t1'', su_path = ''p''\<rparr>
   \<and> su_token \<lparr>su_signed_url = ''https://x//object/upload/sign/b/p?token=t1'',
                su_token = ''t1'', su_path = ''p''\<rparr> \<noteq> []
   \<and> \<not> spec_has_token ''/object/upload/sign/b/p?token=''
   \<and> fst (create_signed_upload_url
          (answering (json_response 200 (JObj [(''url'', JStr ''/object/upload/sign/b/p?token='')])))
          ''b'' empty_world ''p'')
     = Inl (StorageException (JStr ''No token sent by the API''))"
proof -
  let ?ok = "json_response 200 (JObj [(''url'', JStr ''/object/upload/sign/b/p?token=t1'')])"
  let ?r = "\<lparr>su_signed_url = ''https://x//object/upload/sign/b/p?token=t1'',
             su_token = ''t1'', su_path = ''p''\<rparr>"
  let ?u = "''/object/upload/sign/b/p?token=''"
  let ?data = "JObj [(''url'', JStr ?u)]"
  let ?resp = "json_response 200 ?data"
  have ret: "fst (create_signed_upload_url (answering ?ok) ''b'' empty_world ''p'') = Inr ?r"
    by (simp add: create_signed_upload_url_def req_eval url_eval qs_eval)
  have req: "fst (request (answering ?resp) empty_world ''POST''
                    (''/object/upload/sign/'' @ get_final_path ''b'' ''p'') None None None)
             = Inr ?resp"
    by (simp add: req_eval)
  have body: "json_body ?resp = Some ?data" by (simp add: json_response_def)
  have url: "getitem ?data ''url'' = Inr (JStr ?u)"
    by (simp add: getitem_def)
  have base: "cl_base_url (answering ?resp) = ''https'' @ ''://'' @ ''x'' @ ''/'' @ ''''"
    by (simp add: answering_def)
  have sch: "''https'' \<noteq> [] \<and> is_ascii_alpha (hd ''https'') \<and> list_all is_scheme_char ''https''"
    by (simp add: is_ascii_alpha_def is_scheme_char_def)
  have hst: "list_all is_host_char ''x''"
    by (simp add: is_host_char_def is_ascii_alpha_def)
  have rst: "CHR ''?'' \<notin> set '''' \<and> CHR ''#'' \<notin> set ''''" by simp
  have none: "\<not> spec_has_token ?u"
    by (simp add: spec_has_token_def spec_url_query_def spec_token_field_def split_first_def
                  is_unsafe_url_byte_def)
  from create_signed_upload_url_token
         [of "answering ?ok" "''b''" empty_world "''p''" ?r, THEN conjunct1] ret
  have t: "su_token ?r \<noteq> []" by blast
  from create_signed_upload_url_token
         [of "answering ?resp" "''b''" empty_world "''p''" _ ?resp ?data ?u
             "''https''" "''x''" "''''", THEN conjunct2]
       req body url base sch hst rst none
  have e: "fst (create_signed_upload_url (answering ?resp) ''b'' empty_world ''p'')
           = Inl (StorageException (JStr ''No token sent by the API''))"
    by blast
  show ?thesis
    using ret t none e by simp
qed

text \<open>
  C4: for every bucket id \<open>b\<close> and relative path \<open>p\<close>, path resolution returns exactly
  \<open>b\<close>, a slash, \<open>p\<close>: nothing is validated, escaped or collapsed. The function is total
  and has no state, so it cannot fail and has no effect.
\<close>

theorem get_final_path_concat:
  "get_final_path b p = b @ ''/'' @ p"
  by (simp add: get_final_path_def)

text \<open>
  C5, as stated, fails for the cache-control value \<^verbatim>\<open>""\<close>: the rewrite is guarded by
  \<^verbatim>\<open>if cache_control:\<close>, so the empty string is sent as it is, not as \<^verbatim>\<open>max-age=\<close>.
\<close>

theorem upload_empty_cache_control:
  "[''cache-control'' \<mapsto> ''''] ''cache-control'' = Some ''''
   \<and> map (\<lambda>r. w_headers r ''cache-control'')
         (sent (snd (snd (upload (answering (json_response 200 (JObj []))) ''b''
                            [''content-type'' \<mapsto> ''text/plain''] empty_world ''a.txt''
                            (FBytes ''hi'') (Some [''cache-control'' \<mapsto> '''']))))) = [Some '''']"
  by (simp add: upload_eval req_eval rsplit_last_def Let_def)

text \<open>
  C5, amended: when the payload can be read and some layer has a \<^verbatim>\<open>content-type\<close>, both
  \<^verbatim>\<open>upload\<close> and \<^verbatim>\<open>upload_to_signed_url\<close> send exactly one request. Its headers are the
  right-biased merge of the client's headers, \<^verbatim>\<open>DEFAULT_FILE_OPTIONS\<close> and the caller's
  file options, without the \<^verbatim>\<open>content-type\<close> entry, which is the content type of the
  multipart part instead. A non-empty caller value \<open>v\<close> of \<^verbatim>\<open>cache-control\<close> arrives as
  \<^verbatim>\<open>max-age=\<close>\<open>v\<close>; every other caller option arrives unchanged.
\<close>

theorem upload_headers_merge:
  assumes "file_object w file = (Inr src, w1)"
      and "read_source w1 src = Inr data"
      and "opts = rewrite_cache_control (case fo of None \<Rightarrow> Map.empty | Some m \<Rightarrow> m)"
      and "(cl_headers cl ++ dfo ++ opts) ''content-type'' = Some ctype"
      and "hdrs = (cl_headers cl ++ dfo ++ opts)(''content-type'' := None)"
      and "part = \<lparr>part_filename = rsplit_last path, part_content = data,
                    part_content_type = ctype\<rparr>"
  shows "sent (snd (snd (upload cl b dfo w path file fo)))
           = sent w @ [\<lparr>w_method = ''POST'', w_url = ''/object/'' @ get_final_path b path,
                         w_headers = hdrs, w_json = None, w_files = [(''file'', part)]\<rparr>]
       \<and> (\<exists>url. sent (snd (snd (upload_to_signed_url cl b dfo w path token file fo)))
           = sent w @ [\<lparr>w_method = ''PUT'', w_url = url,
                         w_headers = hdrs, w_json = None, w_files = [(''file'', part)]\<rparr>])
       \<and> (\<forall>m v. fo = Some m \<and> m ''cache-control'' = Some v \<and> v \<noteq> []
              \<longrightarrow> hdrs ''cache-control'' = Some (''max-age='' @ v))
       \<and> (\<forall>m k x. fo = Some m \<and> m k = Some x \<and> k \<noteq> ''cache-control'' \<and> k \<noteq> ''content-type''
              \<longrightarrow> hdrs k = Some x)
       \<and> hdrs ''content-type'' = None"
proof (intro conjI)
  have s: "sent w1 = sent w" using file_object_sent [OF assms(1)] .
  have ct: "(cl_headers cl ++ dfo
              ++ rewrite_cache_control (case fo of None \<Rightarrow> Map.empty | Some m \<Rightarrow> m))
             ''content-type'' = Some ctype"
    using assms(3,4) by simp
  show "sent (snd (snd (upload cl b dfo w path file fo)))
           = sent w @ [\<lparr>w_method = ''POST'', w_url = ''/object/'' @ get_final_path b path,
                         w_headers = hdrs, w_json = None, w_files = [(''file'', part)]\<rparr>]"
    using upload_sends [OF assms(1,2) refl ct, of b path] s assms(3,5,6) by simp
  show "\<exists>url. sent (snd (snd (upload_to_signed_url cl b dfo w path token file fo)))
           = sent w @ [\<lparr>w_method = ''PUT'', w_url = url,
                         w_headers = hdrs, w_json = None, w_files = [(''file'', part)]\<rparr>]"
  proof -
    from upload_to_signed_url_sends [OF assms(1,2) refl ct, of b path token]
    obtain url where
      "snd (snd (upload_to_signed_url cl b dfo w path token file fo))
         = w1\<lparr>sent := sent w1 @ [\<lparr>w_method = ''PUT'', w_url = url,
               w_headers = (cl_headers cl ++ dfo
                 ++ rewrite_cache_control (case fo of None \<Rightarrow> Map.empty | Some m \<Rightarrow> m))
                 (''content-type'' := None), w_json = None,
               w_files = [(''file'', \<lparr>part_filename = rsplit_last path, part_content = data,
                                      part_content_type = ctype\<rparr>)]\<rparr>]\<rparr>"
      by blast
    then have "sent (snd (snd (upload_to_signed_url cl b dfo w path token file fo)))
           = sent w @ [\<lparr>w_method = ''PUT'', w_url = url,
                         w_headers = hdrs, w_json = None, w_files = [(''file'', part)]\<rparr>]"
      using s assms(3,5,6) by simp
    then show ?thesis by blast
  qed
  show "\<forall>m v. fo = Some m \<and> m ''cache-control'' = Some v \<and> v \<noteq> []
              \<longrightarrow> hdrs ''cache-control'' = Some (''max-age='' @ v)"
    using assms(3,5) by (auto simp: rewrite_cache_control_def)
  show "\<forall>m k x. fo = Some m \<and> m k = Some x \<and> k \<noteq> ''cache-control'' \<and> k \<noteq> ''content-type''
              \<longrightarrow> hdrs k = Some x"
    using assms(3,5) by (auto simp: rewrite_cache_control_def map_add_def split: option.splits)
  show "hdrs ''content-type'' = None" using assms(5) by simp
qed

theorem upload_headers_merge_witness:
  "map (\<lambda>r. (w_method r, w_url r, w_headers r ''apiKey'', w_headers r ''cache-control'',
              w_headers r ''x-upsert'', w_headers r ''content-type'', w_files r))
     (sent (snd (snd (upload
        \<lparr>cl_base_url = ''https://x/'', cl_headers = [''apiKey'' \<mapsto> ''k''],
           cl_transport = (\<lambda>req. Inr (json_response 200 (JObj [])))\<rparr>
        ''b''
        [''cache-control'' \<mapsto> ''3600'', ''content-type'' \<mapsto> ''text/plain;charset=UTF-8'',
         ''x-upsert'' \<mapsto> ''false'']
        empty_world ''dir/a.txt'' (FBytes ''hi'')
        (Some [''cache-control'' \<mapsto> ''60'', ''x-upsert'' \<mapsto> ''true''])))))
   = [(''POST'', ''/object/b/dir/a.txt'', Some ''k'', Some ''max-age=60'', Some ''true'', None,
       [(''file'', \<lparr>part_filename = ''a.txt'', part_content = ''hi'',
                      part_content_type = ''text/plain;charset=UTF-8''\<rparr>)])]"
proof -
  let ?cl = "\<lparr>cl_base_url = ''https://x/'', cl_headers = [''apiKey'' \<mapsto> ''k''],
           cl_transport = (\<lambda>req. Inr (json_response 200 (JObj [])))\<rparr>"
  let ?dfo = "[''cache-control'' \<mapsto> ''3600'', ''content-type'' \<mapsto> ''text/plain;charset=UTF-8'',
         ''x-upsert'' \<mapsto> ''false'']"
  let ?fo = "Some [''cache-control'' \<mapsto> ''60'', ''x-upsert'' \<mapsto> ''true'']"
  have h1: "file_object empty_world (FBytes ''hi'') = (Inr (SrcBytes ''hi''), empty_world)"
    by (simp add: file_object_def)
  have h2: "read_source empty_world (SrcBytes ''hi'') = Inr ''hi''"
    by (simp add: read_source_def)
  have h4: "(cl_headers ?cl ++ ?dfo
              ++ rewrite_cache_control (case ?fo of None \<Rightarrow> Map.empty | Some m \<Rightarrow> m))
             ''content-type'' = Some ''text/plain;charset=UTF-8''"
    by (simp add: rewrite_cache_control_def)
  from upload_headers_merge [OF h1 h2 refl h4 refl refl, where path = "''dir/a.txt''" and b = "''b''"]
  have "sent (snd (snd (upload ?cl ''b'' ?dfo empty_world ''dir/a.txt'' (FBytes ''hi'') ?fo)))
        = sent empty_world
          @ [\<lparr>w_method = ''POST'', w_url = ''/object/'' @ get_final_path ''b'' ''dir/a.txt'',
               w_headers = (cl_headers ?cl ++ ?dfo
                  ++ rewrite_cache_control (case ?fo of None \<Rightarrow> Map.empty | Some m \<Rightarrow> m))
                  (''content-type'' := None),
               w_json = None,
               w_files = [(''file'', \<lparr>part_filename = rsplit_last ''dir/a.txt'',
                                      part_content = ''hi'',
                                      part_content_type = ''text/plain;charset=UTF-8''\<rparr>)]\<rparr>]"
    by blast
  then show ?thesis
    by (simp add: empty_world_def get_final_path_def rewrite_cache_control_def rsplit_last_def)
qed

text \<open>
  C6: for the transform options \<^verbatim>\<open>{"width": 100, "resize": "cover"}\<close> the URL of
  \<^verbatim>\<open>get_public_url\<close> ends with \<^verbatim>\<open>?\<close> and the encoded options, as the claim says, but
  its endpoint segment is \<^verbatim>\<open>object/public\<close>, not \<^verbatim>\<open>render/image/public\<close>: the code
  looks for a key named \<^verbatim>\<open>transform\<close> among the options, and a set of transform
  options has none.
\<close>

theorem get_public_url_transform_options_object_endpoint:
  "get_public_url (answering (json_response 200 JNull)) ''b'' ''p''
     [(''width'', PInt 100), (''resize'', PStr ''cover'')]
   = ''https://x/object/public/b/p?width=100&resize=cover''"
  by code_simp

text \<open>
  C7: when the request succeeds with an array of objects that each carry a string
  \<^verbatim>\<open>signedURL\<close>, \<^verbatim>\<open>create_signed_urls\<close> returns an array of the same length in which each
  item has the same keys in the same order, its \<^verbatim>\<open>signedURL\<close> replaced by the base URL
  followed by the old value without its leading slashes, and every other field unchanged.
  This holds for any list of paths.
\<close>

theorem create_signed_urls_rewrites:
  assumes "fst (request cl w ''POST'' (''/object/sign/'' @ b) None
                  (Some (signed_urls_body paths expires_in options)) None) = Inr resp"
      and "json_body resp = Some (JArr items)"
      and "\<forall>item \<in> set items. \<exists>kvs s. item = JObj kvs \<and> map_of kvs ''signedURL'' = Some (JStr s)"
  shows "\<exists>items'. fst (create_signed_urls cl b w paths expires_in options) = Inr (JArr items')
          \<and> length items' = length items
          \<and> (\<forall>i < length items. \<exists>kvs s kvs'.
                items ! i = JObj kvs \<and> map_of kvs ''signedURL'' = Some (JStr s)
                \<and> items' ! i = JObj kvs'
                \<and> map fst kvs' = map fst kvs
                \<and> map_of kvs' = (map_of kvs)(''signedURL'' \<mapsto> JStr (cl_base_url cl @ lstrip_slash s))
                \<and> (lstrip_slash s = [] \<or> hd (lstrip_slash s) \<noteq> CHR ''/''))"
proof -
  let ?base = "cl_base_url cl"
  have "\<exists>x. rewrite_signed_url ?base item = Inr x" if "item \<in> set items" for item
  proof -
    from that assms(3) obtain kvs s
      where "item = JObj kvs" "map_of kvs ''signedURL'' = Some (JStr s)"
      by blast
    then show ?thesis by (simp add: rewrite_signed_url_object)
  qed
  then obtain items' where r: "rewrite_items ?base items = Inr items'"
    using rewrite_items_total by blast
  then have all2: "list_all2 (\<lambda>a b. rewrite_signed_url ?base a = Inr b) items items'"
    by (rule rewrite_items_each)
  have res: "fst (create_signed_urls cl b w paths expires_in options) = Inr (JArr items')"
    using assms(1,2) r by (auto simp: create_signed_urls_def split: prod.splits)
  have len: "length items' = length items"
    using all2 by (simp add: list_all2_lengthD)
  have each: "\<exists>kvs s kvs'.
                items ! i = JObj kvs \<and> map_of kvs ''signedURL'' = Some (JStr s)
                \<and> items' ! i = JObj kvs'
                \<and> map fst kvs' = map fst kvs
                \<and> map_of kvs' = (map_of kvs)(''signedURL'' \<mapsto> JStr (?base @ lstrip_slash s))
                \<and> (lstrip_slash s = [] \<or> hd (lstrip_slash s) \<noteq> CHR ''/'')"
    if i: "i < length items" for i
  proof -
    from i assms(3) obtain kvs s
      where item: "items ! i = JObj kvs" "map_of kvs ''signedURL'' = Some (JStr s)"
      using nth_mem by blast
    have "rewrite_signed_url ?base (items ! i) = Inr (items' ! i)"
      using all2 i by (simp add: list_all2_conv_all_nth)
    then have out: "items' ! i
                    = JObj (AList.update ''signedURL'' (JStr (?base @ lstrip_slash s)) kvs)"
      using item rewrite_signed_url_object [OF item(2), of ?base] by simp
    have strip: "lstrip_slash s = [] \<or> hd (lstrip_slash s) \<noteq> CHR ''/''"
      unfolding lstrip_slash_def using hd_dropWhile [of "\<lambda>c. c = CHR ''/''" s] by blast
    show ?thesis
      using item out strip update_present_keys [OF item(2)]
      by (simp add: update_conv')
  qed
  show ?thesis using res len each by blast
qed

theorem create_signed_urls_rewrites_witness:
  "fst (create_signed_urls
          (answering (json_response 200
             (JArr [JObj [(''error'', JNull), (''path'', JStr ''a.png''), (''signedURL'', JStr ''/object/sign/b/a.png?token=t1'')],
                    JObj [(''signedURL'', JStr ''object/sign/b/c.png?token=t2''), (''path'', JStr ''c.png'')]])))
          ''b'' empty_world [''a.png'', ''c.png''] 60 [])
   = Inr (JArr [JObj [(''error'', JNull), (''path'', JStr ''a.png''), (''signedURL'', JStr ''https://x/object/sign/b/a.png?token=t1'')],
                JObj [(''signedURL'', JStr ''https://x/object/sign/b/c.png?token=t2''), (''path'', JStr ''c.png'')]])"
proof -
  let ?i1 = "[(''error'', JNull), (''path'', JStr ''a.png''), (''signedURL'', JStr ''/object/sign/b/a.png?token=t1'')]"
  let ?i2 = "[(''signedURL'', JStr ''object/sign/b/c.png?token=t2''), (''path'', JStr ''c.png'')]"
  let ?items = "[JObj ?i1, JObj ?i2]"
  let ?resp = "json_response 200 (JArr ?items)"
  let ?cl = "answering ?resp"
  have a: "fst (request ?cl empty_world ''POST'' (''/object/sign/'' @ ''b'') None
                  (Some (signed_urls_body [''a.png'', ''c.png''] 60 [])) None) = Inr ?resp"
    by (simp add: req_eval)
  have b: "json_body ?resp = Some (JArr ?items)" by (simp add: json_response_def)
  have c: "\<forall>item \<in> set ?items. \<exists>kvs s. item = JObj kvs \<and> map_of kvs ''signedURL'' = Some (JStr s)"
    by simp
  from create_signed_urls_rewrites [OF a b c]
  obtain items' where
    o: "fst (create_signed_urls ?cl ''b'' empty_world [''a.png'', ''c.png''] 60 []) = Inr (JArr items')"
    by blast
  then show ?thesis
    by (simp add: create_signed_urls_def req_eval rewrite_signed_url_def lstrip_slash_def)
qed

text \<open>
  C8: when the file at the given filesystem path holds the same bytes as the byte buffer
  and the content type resolves, \<^verbatim>\<open>upload\<close> sends the same request for both payloads, and
  so does \<^verbatim>\<open>upload_to_signed_url\<close>: one multipart part \<^verbatim>\<open>file\<close> with the same filename,
  bytes and content type, and the same outcome. The filename is what follows the last
  slash of the relative path (it contains no slash and the path ends with it).
\<close>

theorem upload_bytes_and_path_same_body:
  assumes "fs w fp = Some data"
      and "(cl_headers cl ++ dfo
             ++ rewrite_cache_control (case fo of None \<Rightarrow> Map.empty | Some m \<Rightarrow> m))
            ''content-type'' = Some ctype"
      and "part = \<lparr>part_filename = rsplit_last path, part_content = data,
                    part_content_type = ctype\<rparr>"
  shows "(\<exists>req. sent (snd (snd (upload cl b dfo w path (FBytes data) fo))) = sent w @ [req]
            \<and> sent (snd (snd (upload cl b dfo w path (FPath fp) fo))) = sent w @ [req]
            \<and> w_files req = [(''file'', part)])
       \<and> fst (upload cl b dfo w path (FBytes data) fo)
           = fst (upload cl b dfo w path (FPath fp) fo)
       \<and> (\<exists>req. sent (snd (snd (upload_to_signed_url cl b dfo w path token (FBytes data) fo)))
                   = sent w @ [req]
            \<and> sent (snd (snd (upload_to_signed_url cl b dfo w path token (FPath fp) fo)))
                   = sent w @ [req]
            \<and> w_files req = [(''file'', part)])
       \<and> fst (upload_to_signed_url cl b dfo w path token (FBytes data) fo)
           = fst (upload_to_signed_url cl b dfo w path token (FPath fp) fo)
       \<and> CHR ''/'' \<notin> set (part_filename part)
       \<and> (\<exists>pre. path = pre @ part_filename part \<and> (pre = [] \<or> last pre = CHR ''/''))"
proof -
  let ?w1 = "w\<lparr>handles := handles w @ [\<lparr>h_data = data, h_closed = False\<rparr>]\<rparr>"
  let ?h = "SrcHandle (length (handles w))"
  note fb = file_object_bytes [of w data]
  note fp = file_object_path [OF assms(1)]
  note rb = read_source_bytes [of w data]
  note rp = read_source_fresh [of w data]
  have a: "\<exists>req. sent (snd (snd (upload cl b dfo w path (FBytes data) fo))) = sent w @ [req]
            \<and> sent (snd (snd (upload cl b dfo w path (FPath fp) fo))) = sent w @ [req]
            \<and> w_files req = [(''file'', part)]"
    using upload_sends [OF fb rb refl assms(2), of b path]
          upload_sends [OF fp rp refl assms(2), of b path] assms(3)
    by simp
  have b: "fst (upload cl b dfo w path (FBytes data) fo)
           = fst (upload cl b dfo w path (FPath fp) fo)"
    using upload_result [OF fb refl assms(2), of b path]
          upload_result [OF fp refl assms(2), of b path]
          request_same_bytes [OF rb rp]
    by simp
  obtain u where u: "urlparse (''/object/upload/sign/'' @ get_final_path b path) = Inr u"
    using urlparse_upload_sign by blast
  let ?url = "geturl u @ ''?'' @ urlencode [(''token'', PStr token)]"
  let ?hd = "(cl_headers cl ++ dfo
               ++ rewrite_cache_control (case fo of None \<Rightarrow> Map.empty | Some m \<Rightarrow> m))
             (''content-type'' := None)"
  have sb: "upload_to_signed_url cl b dfo w path token (FBytes data) fo
            = (case request cl w ''PUT'' ?url (Some ?hd) None
                      (Some [(''file'', (rsplit_last path, SrcBytes data, ctype))]) of
                 (r, w2) \<Rightarrow> (r, map_option (\<lambda>_. rewrite_cache_control
                       (case fo of None \<Rightarrow> Map.empty | Some m \<Rightarrow> m)) fo, w2))"
    using u fb assms(2) by (simp add: upload_to_signed_url_def Let_def)
  have sp: "upload_to_signed_url cl b dfo w path token (FPath fp) fo
            = (case request cl ?w1 ''PUT'' ?url (Some ?hd) None
                      (Some [(''file'', (rsplit_last path, ?h, ctype))]) of
                 (r, w2) \<Rightarrow> (r, map_option (\<lambda>_. rewrite_cache_control
                       (case fo of None \<Rightarrow> Map.empty | Some m \<Rightarrow> m)) fo, w2))"
    using u fp assms(2) by (simp add: upload_to_signed_url_def Let_def)
  have c: "\<exists>req. sent (snd (snd (upload_to_signed_url cl b dfo w path token (FBytes data) fo)))
                   = sent w @ [req]
            \<and> sent (snd (snd (upload_to_signed_url cl b dfo w path token (FPath fp) fo)))
                   = sent w @ [req]
            \<and> w_files req = [(''file'', part)]"
    using request_one_file [OF rb, of cl "''PUT''" ?url ?hd "rsplit_last path" ctype]
          request_one_file [OF rp, of cl "''PUT''" ?url ?hd "rsplit_last path" ctype]
          assms(3)
    by (simp add: sb sp split_beta)
  have d: "fst (upload_to_signed_url cl b dfo w path token (FBytes data) fo)
           = fst (upload_to_signed_url cl b dfo w path token (FPath fp) fo)"
    using request_same_bytes [OF rb rp, of cl "''PUT''" ?url "Some ?hd" None "''file''"
                                 "rsplit_last path" ctype]
    by (simp add: sb sp split_beta)
  show ?thesis
    using a b c d rsplit_last_no_slash [of path] rsplit_last_suffix [of path] assms(3)
    by simp
qed

theorem upload_bytes_and_path_same_body_witness:
  "map w_files (sent (snd (snd (upload (answering (json_response 200 (JObj []))) ''b''
          [''content-type'' \<mapsto> ''text/plain''] (empty_world\<lparr>fs := [''/tmp/f'' \<mapsto> ''abc'']\<rparr>)
          ''dir/f.txt'' (FBytes ''abc'') None))))
     = [[(''file'', \<lparr>part_filename = ''f.txt'', part_content = ''abc'',
                      part_content_type = ''text/plain''\<rparr>)]]
   \<and> map w_files (sent (snd (snd (upload (answering (json_response 200 (JObj []))) ''b''
          [''content-type'' \<mapsto> ''text/plain''] (empty_world\<lparr>fs := [''/tmp/f'' \<mapsto> ''abc'']\<rparr>)
          ''dir/f.txt'' (FPath ''/tmp/f'') None))))
     = [[(''file'', \<lparr>part_filename = ''f.txt'', part_content = ''abc'',
                      part_content_type = ''text/plain''\<rparr>)]]"
proof -
  let ?cl = "answering (json_response 200 (JObj []))"
  let ?dfo = "[''content-type'' \<mapsto> ''text/plain'']"
  let ?w = "empty_world\<lparr>fs := [''/tmp/f'' \<mapsto> ''abc'']\<rparr>"
  have h1: "fs ?w ''/tmp/f'' = Some ''abc''" by simp
  have h2: "(cl_headers ?cl ++ ?dfo
              ++ rewrite_cache_control (case None of None \<Rightarrow> Map.empty | Some m \<Rightarrow> m))
             ''content-type'' = Some ''text/plain''"
    by (simp add: rewrite_cache_control_def)
  from upload_bytes_and_path_same_body [OF h1 h2 refl, where path = "''dir/f.txt''" and b = "''b''"]
  obtain req where
    "sent (snd (snd (upload ?cl ''b'' ?dfo ?w ''dir/f.txt'' (FBytes ''abc'') None)))
       = sent ?w @ [req]"
    "sent (snd (snd (upload ?cl ''b'' ?dfo ?w ''dir/f.txt'' (FPath ''/tmp/f'') None)))
       = sent ?w @ [req]"
    "w_files req = [(''file'', \<lparr>part_filename = rsplit_last ''dir/f.txt'',
                                 part_content = ''abc'', part_content_type = ''text/plain''\<rparr>)]"
    by blast
  then show ?thesis
    by (simp add: empty_world_def rsplit_last_def)
qed






end
